theory Spec2Isabelle
  imports Complex_Main
begin

section \<open>Python values: exceptions and integer indexing\<close>

text \<open>
  The exceptions the two modules can raise, as values. \<open>ValueError\<close>, \<open>KeyError\<close> and
  \<open>FileNotFoundError\<close> carry their message, key or file name, so that the
  \<open>ValueError\<close> of the constructor's mode check and the one of \<open>numpy.digitize\<close> stay
  apart. \<open>Unmodelled\<close> is no exception: it marks the inputs on which numpy leaves 64-bit
  integers and the code goes on with values this model does not follow. Nothing is proved
  about the code there.
\<close>

datatype error =
    ValueError string
  | FileNotFoundError string
  | KeyError string
  | IndexError
  | ZeroDivisionError
  | OverflowError
  | Unmodelled string

text \<open>Sequencing of computations that may raise: the first exception wins.\<close>

definition and_then :: "error + 'a \<Rightarrow> ('a \<Rightarrow> error + 'b) \<Rightarrow> error + 'b" where
  "and_then r k = (case r of Inl e \<Rightarrow> Inl e | Inr v \<Rightarrow> k v)"

text \<open>
  \<open>xs[i]\<close> for an integer \<open>i\<close>, as a Python list, a one-dimensional numpy array and the
  first axis of an h5py dataset all read it: an index in \<open>[-n, 0)\<close> counts from the
  end, anything outside \<open>[-n, n)\<close> raises \<open>IndexError\<close>.
\<close>

definition getitem_int :: "'a list \<Rightarrow> int \<Rightarrow> error + 'a" where
  "getitem_int xs i =
     (if 0 \<le> i \<and> i < int (length xs) then Inr (xs ! nat i)
      else if i < 0 \<and> - int (length xs) \<le> i then Inr (xs ! nat (int (length xs) + i))
      else Inl IndexError)"

text \<open>
  \<open>len(xs)\<close>: Python has no length beyond \<open>sys.maxsize = 2\<^sup>6\<^sup>3 - 1\<close>, and raises
  \<open>OverflowError\<close> for one.
\<close>

definition py_len :: "'a list \<Rightarrow> error + int" where
  "py_len xs =
     (if int (length xs) < 2 ^ 63 then Inr (int (length xs)) else Inl OverflowError)"

section \<open>numpy: 64-bit integers, cumsum and digitize\<close>

text \<open>
  The values of numpy's \<open>int64\<close>, and the value an \<open>int64\<close> result wraps around to.
\<close>

definition in_int64 :: "int \<Rightarrow> bool" where
  "in_int64 i = (- (2 ^ 63) \<le> i \<and> i < 2 ^ 63)"

definition int64 :: "int \<Rightarrow> int" where
  "int64 i = (i + 2 ^ 63) mod 2 ^ 64 - 2 ^ 63"

text \<open>
  A Python integer meeting a numpy \<open>int64\<close> in \<open>+\<close> or \<open>-\<close> is first converted to
  \<open>int64\<close>, which raises \<open>OverflowError\<close> when it does not fit (numpy 2); the result is an
  \<open>int64\<close> and wraps around.
\<close>

definition int64_of_python :: "int \<Rightarrow> error + int" where
  "int64_of_python i = (if in_int64 i then Inr i else Inl OverflowError)"

text \<open>
  \<open>numpy.cumsum\<close> of a list of Python integers: the running sums, one per element. A list
  whose elements all fit \<open>int64\<close> becomes an \<open>int64\<close> array, and its sums wrap around
  silently. With an element that does not fit, numpy makes a \<open>float64\<close> or an \<open>object\<close>
  array instead: that is where the model stops.
\<close>

fun cumsum_from :: "int \<Rightarrow> int list \<Rightarrow> int list" where
  "cumsum_from acc [] = []"
| "cumsum_from acc (x # xs) = int64 (acc + x) # cumsum_from (int64 (acc + x)) xs"

definition cumsum :: "int list \<Rightarrow> error + int list" where
  "cumsum xs =
     (if list_all in_int64 xs then Inr (cumsum_from 0 xs)
      else Inl (Unmodelled ''cumsum of an array that is not int64''))"

text \<open>
  \<open>numpy.digitize(x, bins, right=False)\<close> for a scalar \<open>x\<close>. numpy first classifies the
  bins: \<open>1\<close> when they never decrease (all equal, or empty, included), \<open>-1\<close> when they
  never increase and are not all equal, \<open>0\<close> otherwise, and raises \<open>ValueError\<close> on
  \<open>0\<close>. For increasing bins the result is \<open>searchsorted(bins, x, side='right')\<close>, the
  index \<open>i\<close> with \<open>bins[i-1] \<le> x < bins[i]\<close>; for decreasing bins it is
  \<open>len(bins) - searchsorted(bins[::-1], x, side='right')\<close>. numpy classifies the bins after
  converting them to doubles, which is exact up to \<open>2\<^sup>5\<^sup>3\<close> in size and never reverses an
  order: bins that never decrease are classified as here whatever their size, but for
  bins that decrease somewhere and hold a larger value the model stops.
\<close>

definition exact_as_double :: "int \<Rightarrow> bool" where
  "exact_as_double b = (\<bar>b\<bar> \<le> 2 ^ 53)"

definition monotonicity :: "int list \<Rightarrow> int" where
  "monotonicity bins = (if sorted bins then 1 else if sorted (rev bins) then - 1 else 0)"

definition searchsorted_right :: "int list \<Rightarrow> int \<Rightarrow> nat" where
  "searchsorted_right a v = length (takeWhile (\<lambda>b. b \<le> v) a)"

definition digitize :: "int \<Rightarrow> int list \<Rightarrow> error + int" where
  "digitize x bins =
     (if \<not> sorted bins \<and> \<not> list_all exact_as_double bins
      then Inl (Unmodelled ''digitize of bins that do not increase and are inexact as doubles'')
      else if monotonicity bins = 0
      then Inl (ValueError ''bins must be monotonically increasing or decreasing'')
      else if monotonicity bins = - 1
      then Inr (int (length bins) - int (searchsorted_right (rev bins) x))
      else Inr (int (searchsorted_right bins x)))"

section \<open>The backing store\<close>

text \<open>
  An HDF5 file holds named groups, one per simulation run, in the order \<open>keys()\<close> lists
  them. \<open>H5Dataset\<close> reads two members of a group: \<open>time\<close> (one value per time step) and
  \<open>field_values\<close> (one \<open>H \<times> W\<close> snapshot per time step); a member the group lacks is
  \<open>None\<close>, and reading it raises \<open>KeyError\<close>. The coordinate grids, which only
  \<open>get_meshgrid\<close> reads, are left out. The file system maps a file name to the file's
  content; \<open>opened\<close> lists the files opened so far, the latest first.
\<close>

record ('t, 'a) h5group =
  time :: "'t list option"
  field_values :: "'a list list list option"

type_synonym ('t, 'a) h5file = "(string \<times> ('t, 'a) h5group) list"

record ('t, 'a) world =
  files :: "string \<Rightarrow> ('t, 'a) h5file option"
  opened :: "string list"

definition keys :: "('t, 'a) h5file \<Rightarrow> string list" where
  "keys f = map fst f"

definition h5_group :: "('t, 'a) h5file \<Rightarrow> string \<Rightarrow> error + ('t, 'a) h5group" where
  "h5_group f g = (case map_of f g of None \<Rightarrow> Inl (KeyError g) | Some grp \<Rightarrow> Inr grp)"

definition h5_time :: "('t, 'a) h5group \<Rightarrow> error + 't list" where
  "h5_time grp = (case time grp of None \<Rightarrow> Inl (KeyError ''time'') | Some ts \<Rightarrow> Inr ts)"

definition h5_field_values :: "('t, 'a) h5group \<Rightarrow> error + 'a list list list" where
  "h5_field_values grp =
     (case field_values grp of None \<Rightarrow> Inl (KeyError ''field_values'') | Some fv \<Rightarrow> Inr fv)"

section \<open>H5Dataset (pipeline/dataset/loaders.py)\<close>

datatype torch_dtype = Float16 | Float32 | Float64

record ('t, 'a) H5Dataset =
  path :: string
  skip :: int
  mode :: string
  dtype :: torch_dtype
  h5f :: "('t, 'a) h5file"
  group_names :: "string list"
  group_boundaries :: "int list"
  n_groups :: nat

definition mode_error :: error where
  "mode_error = ValueError (''mode must be one of 'train', 'valid', or 'test'' @ [CHR 0x27])"

definition data_file :: "string \<Rightarrow> string \<Rightarrow> string" where
  "data_file p m = p @ ''/'' @ m @ ''_data.h5''"

text \<open>
  The list comprehension of the constructor,
  \<open>[len(self.h5f[g]['time'][:]) - self.skip for g in self.group_names]\<close>.
\<close>

fun steps_per_group :: "('t, 'a) h5file \<Rightarrow> int \<Rightarrow> string list \<Rightarrow> error + int list" where
  "steps_per_group f sk [] = Inr []"
| "steps_per_group f sk (g # gs) =
     and_then (h5_group f g) (\<lambda>grp.
     and_then (h5_time grp) (\<lambda>ts.
     and_then (py_len ts) (\<lambda>n.
     and_then (steps_per_group f sk gs) (\<lambda>rest.
     Inr ((n - sk) # rest)))))"

text \<open>
  \<open>H5Dataset.__init__\<close>: the mode check comes first and leaves the world as it was; then
  the file of the mode is opened, its groups are listed and the boundaries are the
  running sums of \<open>0\<close> followed by each group's \<open>len(time) - skip\<close>.
\<close>

definition H5Dataset_init ::
  "('t, 'a) world \<Rightarrow> string \<Rightarrow> string \<Rightarrow> int \<Rightarrow> (error + ('t, 'a) H5Dataset) \<times> ('t, 'a) world" where
  "H5Dataset_init w p m sk =
     (if m \<notin> set [''train'', ''valid'', ''test''] then (Inl mode_error, w)
      else
        (case files w (data_file p m) of
          None \<Rightarrow> (Inl (FileNotFoundError (data_file p m)), w)
        | Some f \<Rightarrow>
            (case and_then (steps_per_group f sk (keys f)) (\<lambda>steps. cumsum (0 # steps)) of
              Inl e \<Rightarrow> (Inl e, w\<lparr>opened := data_file p m # opened w\<rparr>)
            | Inr boundaries \<Rightarrow>
                (Inr \<lparr>path = p, skip = sk, mode = m, dtype = Float32, h5f = f,
                      group_names = keys f,
                      group_boundaries = boundaries,
                      n_groups = length (keys f)\<rparr>,
                 w\<lparr>opened := data_file p m # opened w\<rparr>))))"

text \<open>\<open>H5Dataset.__len__\<close>: \<open>int(self.group_boundaries[-1])\<close>.\<close>

definition H5Dataset_len :: "('t, 'a) H5Dataset \<Rightarrow> error + int" where
  "H5Dataset_len ds = getitem_int (group_boundaries ds) (- 1)"

text \<open>
  The first two statements of \<open>H5Dataset.__getitem__\<close>: the group the index falls in and
  the index within that group. In \<open>index - self.group_boundaries[group_id]\<close> the boundary
  is an \<open>int64\<close>: the index is converted to one, and the difference wraps around.
\<close>

definition locate :: "('t, 'a) H5Dataset \<Rightarrow> int \<Rightarrow> error + (int \<times> int)" where
  "locate ds index =
     and_then (digitize index (group_boundaries ds)) (\<lambda>d.
     and_then (getitem_int (group_boundaries ds) (d - 1)) (\<lambda>b.
     and_then (int64_of_python index) (\<lambda>i.
     Inr (d - 1, int64 (i - b)))))"

text \<open>
  \<open>torch.from_numpy(self.h5f[self.group_names[group_id]]['field_values'][k]).to(self.dtype)\<close>.
  The conversion \<open>to\<close> of a snapshot to a torch dtype is the framework's and stays a
  parameter.
\<close>

definition read_field ::
  "(torch_dtype \<Rightarrow> 'a list list \<Rightarrow> 'b list list) \<Rightarrow> ('t, 'a) H5Dataset \<Rightarrow> int \<Rightarrow> int \<Rightarrow>
     error + 'b list list" where
  "read_field to ds group_id k =
     and_then (getitem_int (group_names ds) group_id) (\<lambda>g.
     and_then (h5_group (h5f ds) g) (\<lambda>grp.
     and_then (h5_field_values grp) (\<lambda>fv.
     and_then (getitem_int fv k) (\<lambda>snapshot.
     Inr (to (dtype ds) snapshot)))))"

text \<open>
  \<open>H5Dataset.__getitem__\<close>. In \<open>index_within_group + self.skip\<close> the index within the
  group is an \<open>int64\<close>: \<open>skip\<close> is converted to one, and the sum wraps around. (The
  second statement looks the group and its \<open>field_values\<close> up once more before it adds;
  they are found as they were in the first.) \<open>x[None, :, :]\<close> puts a snapshot into a
  one-element list, the channel axis. The method assigns to no attribute: the dataset
  comes back as it went in.
\<close>

definition H5Dataset_getitem ::
  "(torch_dtype \<Rightarrow> 'a list list \<Rightarrow> 'b list list) \<Rightarrow> ('t, 'a) H5Dataset \<Rightarrow> int \<Rightarrow>
     (error + ('b list list list \<times> 'b list list list)) \<times> ('t, 'a) H5Dataset" where
  "H5Dataset_getitem to ds index =
     (and_then (locate ds index) (\<lambda>(group_id, index_within_group).
      and_then (read_field to ds group_id index_within_group) (\<lambda>field_data.
      and_then (int64_of_python (skip ds)) (\<lambda>sk.
      and_then (read_field to ds group_id (int64 (index_within_group + sk))) (\<lambda>next_field_data.
      Inr ([field_data], [next_field_data]))))),
      ds)"

section \<open>The training driver (train_model.py)\<close>

text \<open>
  A Python float as far as the driver compares it: a finite value, an infinity or NaN.
  \<open>float_lt\<close> is \<open><\<close> on floats: every comparison with NaN is false.
\<close>

datatype pyfloat = Finite real | PosInf | NegInf | NaN

fun float_lt :: "pyfloat \<Rightarrow> pyfloat \<Rightarrow> bool" where
  "float_lt (Finite x) (Finite y) = (x < y)"
| "float_lt (Finite x) PosInf = True"
| "float_lt NegInf (Finite y) = True"
| "float_lt NegInf PosInf = True"
| "float_lt _ _ = False"

text \<open>\<open>a % b\<close> on Python integers: the sign follows the divisor, zero raises.\<close>

definition py_mod :: "int \<Rightarrow> int \<Rightarrow> error + int" where
  "py_mod a b = (if b = 0 then Inl ZeroDivisionError else Inr (a mod b))"

text \<open>\<open>str(n)\<close> of an integer, as an f-string formats it.\<close>

function str_nat :: "nat \<Rightarrow> string" where
  "str_nat n =
     (if n < 10 then [''0123456789'' ! n]
      else str_nat (n div 10) @ [''0123456789'' ! (n mod 10)])"
  by pat_completeness auto
termination
  by (relation "measure (\<lambda>n. n)") auto

definition str_int :: "int \<Rightarrow> string" where
  "str_int i = (if i < 0 then CHR ''-'' # str_nat (nat (- i)) else str_nat (nat i))"

text \<open>
  The command-line arguments the control flow of \<open>main\<close> reads. The learning rate, its
  decay and the weight decay only reach the optimizer and the scheduler.
\<close>

record args =
  batch_size :: int
  time_skip :: int
  n_epochs :: int
  valid_freq :: int
  log_freq :: int

text \<open>\<open>setup_directories\<close>: the paths \<open>(save_path, model_path, log_path)\<close>.\<close>

definition setup_directories :: "string \<Rightarrow> args \<Rightarrow> string \<times> string \<times> string" where
  "setup_directories timestring a =
     (let model_path = ''model_'' @ timestring;
          log_path = model_path @ ''/log'';
          save_path = model_path @ ''/model_savetime_'' @ timestring
            @ ''_batchsize_'' @ str_int (batch_size a)
            @ ''_timeskip_'' @ str_int (time_skip a) @ ''.pt''
      in (save_path, model_path, log_path))"

definition checkpoint_path :: "string \<Rightarrow> args \<Rightarrow> string" where
  "checkpoint_path model_path a =
     model_path @ ''/checkpoint_model_tskip_'' @ str_int (time_skip a) @ ''.pt''"

text \<open>
  What a run leaves behind, in order: each validation with its mean loss, and each
  \<open>torch.save\<close>, the one inside the epoch loop (\<open>Checkpoint\<close>, with its epoch) and the
  one after it (\<open>FinalSave\<close>), with the path written.
\<close>

datatype event =
    Validation nat pyfloat
  | Checkpoint nat string
  | FinalSave string

record train_state =
  min_val_loss :: pyfloat
  events :: "event list"

text \<open>
  The training phase of one epoch, over the steps \<open>0 ..< len(train_loader)\<close>. The
  optimization step is the framework's; what the driver adds is the test
  \<open>step % args.log_freq == 0\<close>, which logs and changes no state.
\<close>

fun train_phase :: "int \<Rightarrow> nat list \<Rightarrow> error + unit" where
  "train_phase lf [] = Inr ()"
| "train_phase lf (step # steps) =
     and_then (py_mod (int step) lf) (\<lambda>r. train_phase lf steps)"

text \<open>
  The body of the epoch loop. \<open>valid_loss_of epoch\<close> is the mean validation loss the
  validation phase of that epoch computes (\<open>np.mean\<close> of the batch losses, NaN when
  there is no batch). The logging and the scheduler's step after the checkpoint change
  nothing the driver reads, and leave no event.
\<close>

definition epoch_body ::
  "args \<Rightarrow> nat \<Rightarrow> (nat \<Rightarrow> pyfloat) \<Rightarrow> string \<Rightarrow> train_state \<Rightarrow> nat \<Rightarrow> error + train_state" where
  "epoch_body a n_batches valid_loss_of model_path st epoch =
     and_then (train_phase (log_freq a) [0..<n_batches]) (\<lambda>u.
     and_then (py_mod (int epoch) (valid_freq a)) (\<lambda>r.
       if r = 0 then
         (let val_loss = valid_loss_of epoch;
              st1 = st\<lparr>events := events st @ [Validation epoch val_loss]\<rparr>
          in if float_lt val_loss (min_val_loss st1)
             then Inr (st1\<lparr>min_val_loss := val_loss,
                           events := events st1 @ [Checkpoint epoch (checkpoint_path model_path a)]\<rparr>)
             else Inr st1)
       else Inr st))"

fun epoch_loop ::
  "args \<Rightarrow> nat \<Rightarrow> (nat \<Rightarrow> pyfloat) \<Rightarrow> string \<Rightarrow> train_state \<Rightarrow> nat list \<Rightarrow> error + train_state" where
  "epoch_loop a n_batches valid_loss_of model_path st [] = Inr st"
| "epoch_loop a n_batches valid_loss_of model_path st (epoch # epochs) =
     and_then (epoch_body a n_batches valid_loss_of model_path st epoch) (\<lambda>st'.
     epoch_loop a n_batches valid_loss_of model_path st' epochs)"

text \<open>
  \<open>main\<close> from \<open>min_val_loss = float('inf')\<close> on: the epoch loop over
  \<open>range(args.n_epochs)\<close>, then the final save. The set-up before it (directories,
  logging, device, seeds, datasets, model, optimizer) hands over the time string of the
  paths and \<open>n_batches = len(train_loader)\<close>.
\<close>

definition main :: "args \<Rightarrow> string \<Rightarrow> nat \<Rightarrow> (nat \<Rightarrow> pyfloat) \<Rightarrow> error + train_state" where
  "main a timestring n_batches valid_loss_of =
     (case setup_directories timestring a of
       (save_path, model_path, log_path) \<Rightarrow>
         and_then
           (epoch_loop a n_batches valid_loss_of model_path
              \<lparr>min_val_loss = PosInf, events = []\<rparr> [0..<nat (n_epochs a)])
           (\<lambda>st. Inr (st\<lparr>events := events st @ [FinalSave save_path]\<rparr>)))"

section \<open>The data model of the specification\<close>

text \<open>
  A simulation run holds \<open>T\<close> snapshots and \<open>T\<close> time values: a store is well formed when
  its group names are distinct (as HDF5 has them) and every group has both members, of
  equal length. \<open>run_lengths\<close> are the numbers of time steps \<open>L\<^sub>1 .. L\<^sub>n\<close> of the runs.
  \<open>running_sums\<close> are the running sums of unbounded integers, which \<open>cumsum\<close> computes as
  long as nothing leaves 64 bits.
\<close>

fun running_sums_from :: "int \<Rightarrow> int list \<Rightarrow> int list" where
  "running_sums_from acc [] = []"
| "running_sums_from acc (x # xs) = (acc + x) # running_sums_from (acc + x) xs"

definition running_sums :: "int list \<Rightarrow> int list" where
  "running_sums xs = running_sums_from 0 xs"

definition num_steps :: "('t, 'a) h5group \<Rightarrow> int" where
  "num_steps grp = (case time grp of None \<Rightarrow> 0 | Some ts \<Rightarrow> int (length ts))"

definition run_lengths :: "('t, 'a) h5file \<Rightarrow> int list" where
  "run_lengths f = map (\<lambda>(g, grp). num_steps grp) f"

definition well_formed_group :: "('t, 'a) h5group \<Rightarrow> bool" where
  "well_formed_group grp =
     (case (time grp, field_values grp) of
       (Some ts, Some fv) \<Rightarrow> length fv = length ts
     | _ \<Rightarrow> False)"

definition well_formed :: "('t, 'a) h5file \<Rightarrow> bool" where
  "well_formed f = (distinct (keys f) \<and> list_all (\<lambda>(g, grp). well_formed_group grp) f)"

section \<open>Example stores\<close>

text \<open>
  A run of \<open>n\<close> time steps whose snapshot at step \<open>k\<close> is the \<open>1 \<times> 1\<close> field \<open>[[k]]\<close>, a
  training file of up to three such runs under \<open>data/\<close>, and a conversion that records
  the dtype it was asked for beside every value.
\<close>

definition example_group :: "nat \<Rightarrow> (nat, int) h5group" where
  "example_group n =
     \<lparr>time = Some [0..<n], field_values = Some (map (\<lambda>k. [[int k]]) [0..<n])\<rparr>"

definition example_file :: "nat list \<Rightarrow> (nat, int) h5file" where
  "example_file lens = zip [''run_0'', ''run_1'', ''run_2''] (map example_group lens)"

definition example_world :: "nat list \<Rightarrow> (nat, int) world" where
  "example_world lens =
     \<lparr>files = (\<lambda>name. if name = ''data/train_data.h5'' then Some (example_file lens) else None),
      opened = []\<rparr>"

definition tag_dtype :: "torch_dtype \<Rightarrow> int list list \<Rightarrow> (torch_dtype \<times> int) list list" where
  "tag_dtype d x = map (map (Pair d)) x"

section \<open>The training run, as the specification words it\<close>

text \<open>
  \<open>best_seen vf loss e\<close> is the best validation loss seen before epoch \<open>e\<close>: \<open>+\<infinity>\<close> at
  the start, replaced by the loss of an epoch that validates (every \<open>vf\<close> epochs) and
  is strictly below it. An epoch \<open>improves\<close> when it validates with a loss strictly below
  the best seen before it. The four observers read a run's events: the epochs that
  validated, the epochs that wrote a checkpoint, and the paths written by the checkpoints
  and by the final save. The example run has the batch size 64 and the time skip 25 of
  the command line's defaults, logs every step, and meets the validation losses 0.5, 0.3,
  0.4 and 0.2 (and 0.2 from then on).
\<close>

fun best_seen :: "int \<Rightarrow> (nat \<Rightarrow> pyfloat) \<Rightarrow> nat \<Rightarrow> pyfloat" where
  "best_seen vf loss 0 = PosInf"
| "best_seen vf loss (Suc e) =
     (if int e mod vf = 0 \<and> float_lt (loss e) (best_seen vf loss e) then loss e
      else best_seen vf loss e)"

definition validation_epochs :: "event list \<Rightarrow> nat list" where
  "validation_epochs evs =
     concat (map (\<lambda>ev. case ev of Validation e l \<Rightarrow> [e] | _ \<Rightarrow> []) evs)"

definition checkpoint_epochs :: "event list \<Rightarrow> nat list" where
  "checkpoint_epochs evs =
     concat (map (\<lambda>ev. case ev of Checkpoint e p \<Rightarrow> [e] | _ \<Rightarrow> []) evs)"

definition checkpoint_paths :: "event list \<Rightarrow> string list" where
  "checkpoint_paths evs =
     concat (map (\<lambda>ev. case ev of Checkpoint e p \<Rightarrow> [p] | _ \<Rightarrow> []) evs)"

definition final_saves :: "event list \<Rightarrow> string list" where
  "final_saves evs =
     concat (map (\<lambda>ev. case ev of FinalSave p \<Rightarrow> [p] | _ \<Rightarrow> []) evs)"

definition example_args :: "int \<Rightarrow> int \<Rightarrow> args" where
  "example_args n vf =
     \<lparr>batch_size = 64, time_skip = 25, n_epochs = n, valid_freq = vf, log_freq = 1\<rparr>"

definition example_losses :: "nat \<Rightarrow> pyfloat" where
  "example_losses e =
     (if e = 0 then Finite 0.5 else if e = 1 then Finite 0.3
      else if e = 2 then Finite 0.4 else Finite 0.2)"

definition improves :: "args \<Rightarrow> (nat \<Rightarrow> pyfloat) \<Rightarrow> nat \<Rightarrow> bool" where
  "improves a loss e = (int e mod valid_freq a = 0
      \<and> float_lt (loss e) (best_seen (valid_freq a) loss e))"

section \<open>Sequencing, running sums and searching\<close>

lemma and_then_Inl [simp]: "and_then (Inl e) k = Inl e"
  by (simp add: and_then_def)

lemma and_then_Inr [simp]: "and_then (Inr v) k = k v"
  by (simp add: and_then_def)

lemma length_running_sums_from [simp]: "length (running_sums_from acc xs) = length xs"
  by (induction xs arbitrary: acc) simp_all

lemma nth_running_sums_from:
  "k < length xs \<Longrightarrow> running_sums_from acc xs ! k = acc + sum_list (take (Suc k) xs)"
proof (induction xs arbitrary: acc k)
  case Nil
  then show ?case by simp
next
  case (Cons x xs)
  show ?case
  proof (cases k)
    case 0
    then show ?thesis by simp
  next
    case (Suc j)
    with Cons.prems have "j < length xs" by simp
    from Cons.IH [OF this, of "acc + x"] Suc show ?thesis by simp
  qed
qed

lemma length_running_sums [simp]: "length (running_sums xs) = length xs"
  by (simp add: running_sums_def)

lemma nth_running_sums_zero:
  "k \<le> length cs \<Longrightarrow> running_sums (0 # cs) ! k = sum_list (take k cs)"
  using nth_running_sums_from [of k "0 # cs" 0] by (simp add: running_sums_def)

lemma int64_id: "in_int64 i \<Longrightarrow> int64 i = i"
  by (simp add: in_int64_def int64_def)

lemma int64_of_python_Inr: "in_int64 i \<Longrightarrow> int64_of_python i = Inr i"
  by (simp add: int64_of_python_def)

lemma in_int64_I: "0 \<le> i \<Longrightarrow> i < 2 ^ 63 \<Longrightarrow> in_int64 i"
  by (simp add: in_int64_def)

lemma cumsum_from_exact:
  "\<forall>x\<in>set xs. 0 \<le> x \<Longrightarrow> 0 \<le> acc \<Longrightarrow> acc + sum_list xs < 2 ^ 63
     \<Longrightarrow> cumsum_from acc xs = running_sums_from acc xs"
proof (induction xs arbitrary: acc)
  case Nil
  show ?case by simp
next
  case (Cons x xs)
  from Cons.prems have x: "0 \<le> x" and rest: "\<forall>y\<in>set xs. 0 \<le> y" by simp_all
  from rest have "0 \<le> sum_list xs" by (simp add: sum_list_nonneg)
  with Cons.prems x have "in_int64 (acc + x)" by (intro in_int64_I) simp_all
  then have w: "int64 (acc + x) = acc + x" by (rule int64_id)
  from Cons.prems x have "0 \<le> acc + x" "acc + x + sum_list xs < 2 ^ 63" by simp_all
  with rest have "cumsum_from (acc + x) xs = running_sums_from (acc + x) xs"
    by (intro Cons.IH)
  with w show ?case by simp
qed

lemma member_le_sum_list_int:
  "\<forall>y\<in>set xs. (0::int) \<le> y \<Longrightarrow> x \<in> set xs \<Longrightarrow> x \<le> sum_list xs"
  by (induction xs) (auto simp: sum_list_nonneg add_increasing add_increasing2)

lemma cumsum_exact:
  assumes "\<forall>x\<in>set cs. 0 \<le> x" "sum_list cs < 2 ^ 63"
  shows "cumsum (0 # cs) = Inr (running_sums (0 # cs))"
proof -
  have "in_int64 x" if "x \<in> set cs" for x
  proof (rule in_int64_I)
    from assms(1) that show "0 \<le> x" by simp
    from member_le_sum_list_int [OF assms(1) that] assms(2) show "x < 2 ^ 63" by simp
  qed
  then have all: "list_all in_int64 (0 # cs)"
    by (simp add: list_all_iff in_int64_def)
  from assms have "cumsum_from 0 (0 # cs) = running_sums_from 0 (0 # cs)"
    by (intro cumsum_from_exact) simp_all
  with all show ?thesis by (simp only: cumsum_def running_sums_def if_True)
qed

text \<open>
  Boundaries that come out of \<open>cumsum\<close> non-decreasing never wrapped around: every count
  is non-negative and the total fits.
\<close>

lemma sorted_cumsum_from_D:
  "sorted (acc # cumsum_from acc xs) \<Longrightarrow> 0 \<le> acc \<Longrightarrow> acc < 2 ^ 63 \<Longrightarrow> list_all in_int64 xs
     \<Longrightarrow> (\<forall>x\<in>set xs. 0 \<le> x) \<and> acc + sum_list xs < 2 ^ 63"
proof (induction xs arbitrary: acc)
  case Nil
  then show ?case by simp
next
  case (Cons x xs)
  from Cons.prems have x64: "in_int64 x" and rest64: "list_all in_int64 xs" by simp_all
  from Cons.prems have le: "acc \<le> int64 (acc + x)"
    and s: "sorted (int64 (acc + x) # cumsum_from (int64 (acc + x)) xs)"
    by simp_all
  have nowrap: "acc + x < 2 ^ 63"
  proof (rule ccontr)
    assume "\<not> acc + x < 2 ^ 63"
    define d where "d = acc + x - 2 ^ 63"
    from \<open>\<not> acc + x < 2 ^ 63\<close> x64 Cons.prems(3) have lo: "0 \<le> d" and hi: "d < 2 ^ 64"
      by (simp_all add: in_int64_def d_def)
    have "acc + x + 2 ^ 63 = d + 2 ^ 64" by (simp add: d_def)
    then have "(acc + x + 2 ^ 63) mod 2 ^ 64 = (d + 2 ^ 64) mod 2 ^ 64" by (rule arg_cong)
    also have "\<dots> = d mod 2 ^ 64" by (rule mod_add_self2)
    also from lo hi have "\<dots> = d" by (rule mod_pos_pos_trivial)
    finally have "int64 (acc + x) = acc + x - 2 ^ 64"
      by (simp add: int64_def d_def)
    with le x64 show False by (simp add: in_int64_def)
  qed
  with x64 Cons.prems(2) have "in_int64 (acc + x)" by (simp add: in_int64_def)
  then have w: "int64 (acc + x) = acc + x" by (rule int64_id)
  with le have x0: "0 \<le> x" by simp
  from s w have "sorted ((acc + x) # cumsum_from (acc + x) xs)" by simp
  moreover from x0 Cons.prems(2) have "0 \<le> acc + x" by simp
  ultimately have "(\<forall>y\<in>set xs. 0 \<le> y) \<and> acc + x + sum_list xs < 2 ^ 63"
    using nowrap rest64 by (intro Cons.IH)
  with x0 show ?case by (simp add: add.assoc)
qed

text \<open>
  On a well-formed store the list comprehension of the constructor finds every group
  and its \<open>time\<close>; it raises only for a \<open>time\<close> longer than Python lets a length be.
\<close>

lemma steps_per_group_wf:
  assumes "distinct (map fst f)" "list_all (\<lambda>(g, grp). well_formed_group grp) f"
    and "set gs \<subseteq> set f"
  shows "steps_per_group f sk (map fst gs) =
     (if list_all (\<lambda>(g, grp). num_steps grp < 2 ^ 63) gs
      then Inr (map (\<lambda>(g, grp). num_steps grp - sk) gs) else Inl OverflowError)"
  using assms(3)
proof (induction gs)
  case Nil
  then show ?case by simp
next
  case (Cons a gs)
  obtain g grp where a: "a = (g, grp)" by (cases a)
  with Cons.prems have mem: "(g, grp) \<in> set f" by simp
  with assms(1) have look: "map_of f g = Some grp" by simp
  from mem assms(2) have "well_formed_group grp"
    by (auto simp: list_all_iff)
  then obtain ts where ts: "time grp = Some ts"
    by (auto simp: well_formed_group_def split: option.splits)
  from Cons have IH: "steps_per_group f sk (map fst gs) =
     (if list_all (\<lambda>(g, grp). num_steps grp < 2 ^ 63) gs
      then Inr (map (\<lambda>(g, grp). num_steps grp - sk) gs) else Inl OverflowError)"
    by simp
  from look ts have "steps_per_group f sk (map fst (a # gs)) =
      and_then (py_len ts) (\<lambda>n.
      and_then (steps_per_group f sk (map fst gs)) (\<lambda>rest. Inr ((n - sk) # rest)))"
    by (simp add: a h5_group_def h5_time_def)
  also have "\<dots> =
     (if list_all (\<lambda>(g, grp). num_steps grp < 2 ^ 63) (a # gs)
      then Inr (map (\<lambda>(g, grp). num_steps grp - sk) (a # gs)) else Inl OverflowError)"
    using ts by (simp add: IH a py_len_def num_steps_def)
  finally show ?case .
qed

lemma run_lengths_counts:
  "map (\<lambda>(g, grp). num_steps grp - sk) f = map (\<lambda>L. L - sk) (run_lengths f)"
  "list_all (\<lambda>(g, grp). num_steps grp < 2 ^ 63) f = (\<forall>L\<in>set (run_lengths f). L < 2 ^ 63)"
  by (auto simp: run_lengths_def case_prod_unfold comp_def list_all_iff)

lemma init_wf:
  assumes "well_formed f" "files w (data_file p m) = Some f"
    and "m \<in> set [''train'', ''valid'', ''test'']"
  shows "H5Dataset_init w p m sk =
     (if \<not> (\<forall>L\<in>set (run_lengths f). L < 2 ^ 63)
      then (Inl OverflowError, w\<lparr>opened := data_file p m # opened w\<rparr>)
      else if \<not> list_all in_int64 (map (\<lambda>L. L - sk) (run_lengths f))
      then (Inl (Unmodelled ''cumsum of an array that is not int64''),
            w\<lparr>opened := data_file p m # opened w\<rparr>)
      else
        (Inr \<lparr>path = p, skip = sk, mode = m, dtype = Float32, h5f = f, group_names = keys f,
           group_boundaries = 0 # cumsum_from 0 (map (\<lambda>L. L - sk) (run_lengths f)),
           n_groups = length f\<rparr>,
         w\<lparr>opened := data_file p m # opened w\<rparr>))"
proof -
  from assms(1) have "steps_per_group f sk (map fst f) =
     (if list_all (\<lambda>(g, grp). num_steps grp < 2 ^ 63) f
      then Inr (map (\<lambda>(g, grp). num_steps grp - sk) f) else Inl OverflowError)"
    by (intro steps_per_group_wf) (auto simp: well_formed_def keys_def)
  then have steps: "steps_per_group f sk (keys f) =
     (if \<forall>L\<in>set (run_lengths f). L < 2 ^ 63
      then Inr (map (\<lambda>L. L - sk) (run_lengths f)) else Inl OverflowError)"
    by (simp only: run_lengths_counts keys_def)
  have zero: "in_int64 0" "int64 0 = 0" by (simp_all add: in_int64_def int64_def)
  have n: "length (keys f) = length f" by (simp add: keys_def)
  show ?thesis
    using assms(2,3) by (simp add: H5Dataset_init_def steps cumsum_def zero n)
qed

text \<open>
  With a non-negative number of samples in every run and fewer than \<open>2\<^sup>6\<^sup>3\<close> time
  steps in all, nothing wraps around: the boundaries are the running sums.
\<close>

lemma counts_exact:
  assumes "0 \<le> (sk::int)" "\<forall>L\<in>set Ls. sk \<le> L" "sum_list Ls < 2 ^ 63"
  shows "\<forall>L\<in>set Ls. L < 2 ^ 63" and "\<forall>c\<in>set (map (\<lambda>L. L - sk) Ls). 0 \<le> c"
    and "sum_list (map (\<lambda>L. L - sk) Ls) < 2 ^ 63"
proof -
  from assms(1,2) have nn: "\<forall>L\<in>set Ls. 0 \<le> L" by auto
  show "\<forall>L\<in>set Ls. L < 2 ^ 63"
  proof
    fix L assume "L \<in> set Ls"
    from member_le_sum_list_int [OF nn this] assms(3) show "L < 2 ^ 63" by simp
  qed
  from assms(2) show "\<forall>c\<in>set (map (\<lambda>L. L - sk) Ls). 0 \<le> c" by simp
  from assms(1) have "sum_list (map (\<lambda>L. L - sk) Ls) \<le> sum_list Ls"
    by (induction Ls) (simp_all add: add_mono)
  with assms(3) show "sum_list (map (\<lambda>L. L - sk) Ls) < 2 ^ 63" by simp
qed

lemma init_exact:
  assumes "well_formed f" "files w (data_file p m) = Some f"
    and "m \<in> set [''train'', ''valid'', ''test'']"
    and "\<forall>L\<in>set (run_lengths f). L < 2 ^ 63"
    and "\<forall>L\<in>set (run_lengths f). sk \<le> L"
    and "(\<Sum>L\<leftarrow>run_lengths f. L - sk) < 2 ^ 63"
  shows "H5Dataset_init w p m sk =
     (Inr \<lparr>path = p, skip = sk, mode = m, dtype = Float32, h5f = f, group_names = keys f,
           group_boundaries = running_sums (0 # map (\<lambda>L. L - sk) (run_lengths f)),
           n_groups = length f\<rparr>,
      w\<lparr>opened := data_file p m # opened w\<rparr>)"
proof -
  let ?cs = "map (\<lambda>L. L - sk) (run_lengths f)"
  from assms(5) have nn: "\<forall>c\<in>set ?cs. 0 \<le> c" by simp
  have "in_int64 c" if "c \<in> set ?cs" for c
  proof (rule in_int64_I)
    from nn that show "0 \<le> c" by blast
    from member_le_sum_list_int [OF nn that] assms(6) show "c < 2 ^ 63" by linarith
  qed
  then have all: "list_all in_int64 ?cs" by (simp only: list_all_iff) blast
  from nn assms(6) have "cumsum_from 0 ?cs = running_sums_from 0 ?cs"
    by (intro cumsum_from_exact) simp_all
  then have eq: "0 # cumsum_from 0 ?cs = running_sums (0 # ?cs)"
    by (simp add: running_sums_def)
  from assms(4) have t1: "(\<not> (\<forall>L\<in>set (run_lengths f). L < 2 ^ 63)) = False" by blast
  from all have t2: "(\<not> list_all in_int64 ?cs) = False" by blast
  show ?thesis
    by (simp only: init_wf [OF assms(1,2,3)] t1 t2 if_False eq)
qed

lemma init_well_formed:
  assumes "well_formed f" "files w (data_file p m) = Some f"
    and "m \<in> set [''train'', ''valid'', ''test'']"
    and "0 \<le> sk" "\<forall>L\<in>set (run_lengths f). sk \<le> L" "sum_list (run_lengths f) < 2 ^ 63"
  shows "H5Dataset_init w p m sk =
     (Inr \<lparr>path = p, skip = sk, mode = m, dtype = Float32, h5f = f, group_names = keys f,
           group_boundaries = running_sums (0 # map (\<lambda>L. L - sk) (run_lengths f)),
           n_groups = length f\<rparr>,
      w\<lparr>opened := data_file p m # opened w\<rparr>)"
  using assms(1,2,3) counts_exact(1) [OF assms(4,5,6)] assms(5) counts_exact(3) [OF assms(4,5,6)]
  by (rule init_exact)

lemma len_running_sums_zero: "getitem_int (running_sums (0 # cs)) (- 1) = Inr (sum_list cs)"
  using nth_running_sums_zero [of "length cs" cs] by (simp add: getitem_int_def)

lemma sum_list_clamped:
  "\<forall>L\<in>set Ls. sk \<le> L \<Longrightarrow> (\<Sum>L\<leftarrow>Ls. max 0 (L - sk)) = (\<Sum>L\<leftarrow>Ls. L - (sk::int))"
  by (induction Ls) (simp_all add: max_def)

lemma sorted_running_sums_from:
  "\<forall>x\<in>set xs. 0 \<le> x \<Longrightarrow> sorted (acc # running_sums_from acc xs)"
proof (induction xs arbitrary: acc)
  case Nil
  then show ?case by simp
next
  case (Cons x xs)
  then have "sorted ((acc + x) # running_sums_from (acc + x) xs)" by simp
  moreover from Cons.prems have "acc \<le> acc + x" by simp
  ultimately show ?case by (auto simp: order_trans [of acc "acc + x"])
qed

lemma running_sums_zero_Cons: "running_sums (0 # cs) = 0 # running_sums_from 0 cs"
  by (simp add: running_sums_def)

lemma running_sums_step:
  assumes "r < length cs"
  shows "running_sums (0 # cs) ! Suc r - running_sums (0 # cs) ! r = cs ! r"
proof -
  from assms have "sum_list (take (Suc r) cs) = sum_list (take r cs) + cs ! r"
    by (simp add: take_Suc_conv_app_nth)
  with assms show ?thesis
    using nth_running_sums_zero [of "Suc r" cs] nth_running_sums_zero [of r cs] by simp
qed

lemma sorted_running_sums_iff:
  "sorted (running_sums (0 # cs)) \<longleftrightarrow> (\<forall>x\<in>set cs. 0 \<le> x)"
proof
  assume s: "sorted (running_sums (0 # cs))"
  show "\<forall>x\<in>set cs. 0 \<le> x"
  proof
    fix x assume "x \<in> set cs"
    then obtain r where r: "r < length cs" "cs ! r = x"
      by (auto simp: in_set_conv_nth)
    from s r(1) have "running_sums (0 # cs) ! r \<le> running_sums (0 # cs) ! Suc r"
      by (intro sorted_nth_mono) simp_all
    with running_sums_step [OF r(1)] r(2) show "0 \<le> x" by simp
  qed
next
  assume "\<forall>x\<in>set cs. 0 \<le> x"
  then show "sorted (running_sums (0 # cs))"
    using sorted_running_sums_from [of cs 0] by (simp add: running_sums_zero_Cons)
qed

lemma searchsorted_right_below:
  "j < searchsorted_right b x \<Longrightarrow> b ! j \<le> x"
  unfolding searchsorted_right_def
  using nth_mem [of j "takeWhile (\<lambda>v. v \<le> x) b"] set_takeWhileD [of "b ! j" "\<lambda>v. v \<le> x" b]
  by (simp add: takeWhile_nth)

lemma searchsorted_right_above:
  "searchsorted_right b x < length b \<Longrightarrow> x < b ! searchsorted_right b x"
  unfolding searchsorted_right_def
  using nth_length_takeWhile [of "\<lambda>v. v \<le> x" b] by simp

lemma searchsorted_right_le: "searchsorted_right b x \<le> length b"
  by (simp add: searchsorted_right_def length_takeWhile_le)

lemma searchsorted_right_pos:
  "b \<noteq> [] \<Longrightarrow> hd b \<le> x \<Longrightarrow> 0 < searchsorted_right b x"
  by (cases b) (simp_all add: searchsorted_right_def)

lemma searchsorted_right_inside:
  assumes "b \<noteq> []" "x < last b"
  shows "searchsorted_right b x < length b"
proof (rule ccontr)
  assume "\<not> searchsorted_right b x < length b"
  with searchsorted_right_le [of b x] have full: "searchsorted_right b x = length b" by simp
  from assms(1) have "length b - 1 < searchsorted_right b x"
    using full by (cases b) simp_all
  then have "b ! (length b - 1) \<le> x" by (rule searchsorted_right_below)
  with assms show False by (simp add: last_conv_nth)
qed

lemma searchsorted_right_all:
  assumes "b \<noteq> []" "last b \<le> x" "sorted b"
  shows "searchsorted_right b x = length b"
proof -
  have "\<forall>v\<in>set b. v \<le> x"
  proof
    fix v assume "v \<in> set b"
    then obtain k where "k < length b" "b ! k = v" by (auto simp: in_set_conv_nth)
    with assms(1,3) have "v \<le> last b"
      using sorted_nth_mono [of b k "length b - 1"] by (simp add: last_conv_nth)
    with assms(2) show "v \<le> x" by simp
  qed
  then have "takeWhile (\<lambda>v. v \<le> x) b = b"
    by (simp add: takeWhile_eq_all_conv)
  then show ?thesis
    unfolding searchsorted_right_def by (rule arg_cong [where f = length])
qed

lemma digitize_sorted:
  "sorted bins \<Longrightarrow> digitize x bins = Inr (int (searchsorted_right bins x))"
  by (simp add: digitize_def monotonicity_def)

lemma digitize_Inr_sorted:
  assumes "digitize x bins = Inr d" "bins \<noteq> []" "hd bins < last bins"
  shows "sorted bins"
proof (rule ccontr)
  assume ns: "\<not> sorted bins"
  with assms(1) have "sorted (rev bins)"
    by (auto simp: digitize_def monotonicity_def split: if_splits)
  with assms(2) have "last bins \<le> hd bins"
    using sorted_nth_mono [of "rev bins" 0 "length bins - 1"]
    by (simp add: rev_nth hd_conv_nth last_conv_nth)
  with assms(3) show False by simp
qed

lemma locate_in_range:
  assumes "sorted (group_boundaries ds)" "group_boundaries ds \<noteq> []"
    and "hd (group_boundaries ds) \<le> i" "i < last (group_boundaries ds)"
    and "0 \<le> hd (group_boundaries ds)" "last (group_boundaries ds) \<le> 2 ^ 63"
  shows "\<exists>r. Suc r < length (group_boundaries ds)
           \<and> locate ds i = Inr (int r, i - group_boundaries ds ! r)
           \<and> group_boundaries ds ! r \<le> i \<and> i < group_boundaries ds ! Suc r"
proof -
  define b where "b = group_boundaries ds"
  define k where "k = searchsorted_right b i"
  from assms have pos: "0 < k" and inside: "k < length b"
    unfolding k_def b_def
    by (simp_all add: searchsorted_right_pos searchsorted_right_inside)
  then obtain r where r: "k = Suc r" by (cases k) simp_all
  from inside have above: "i < b ! k"
    unfolding k_def by (rule searchsorted_right_above)
  have below: "b ! r \<le> i"
    by (rule searchsorted_right_below) (simp add: k_def [symmetric] r)
  from assms(1) r inside have "b ! 0 \<le> b ! r"
    unfolding b_def by (intro sorted_nth_mono) simp_all
  with assms(2,5) have first: "0 \<le> b ! r"
    by (simp add: hd_conv_nth b_def)
  from assms(3,4,5,6) have "in_int64 i" by (intro in_int64_I) simp_all
  then have conv: "int64_of_python i = Inr i" by (rule int64_of_python_Inr)
  from first below assms(4,6) have "in_int64 (i - b ! r)"
    by (intro in_int64_I) simp_all
  then have diff: "int64 (i - b ! r) = i - b ! r" by (rule int64_id)
  from assms(1) have "digitize i b = Inr (int k)"
    by (simp add: digitize_sorted b_def k_def)
  moreover from r inside have "getitem_int b (int k - 1) = Inr (b ! r)"
    by (simp add: getitem_int_def)
  ultimately have "locate ds i = Inr (int r, i - b ! r)"
    using r conv diff by (simp add: locate_def b_def [symmetric])
  with r inside above below show ?thesis
    unfolding b_def by auto
qed

lemma bucket_unique:
  assumes "sorted (b :: int list)" "Suc r < length b" "Suc r' < length b"
    and "b ! r \<le> i" "i < b ! Suc r" "b ! r' \<le> i" "i < b ! Suc r'"
  shows "r' = r"
proof (rule ccontr)
  assume "r' \<noteq> r"
  then consider "Suc r' \<le> r" | "Suc r \<le> r'" by linarith
  then show False
  proof cases
    case 1
    with assms(1,2) have "b ! Suc r' \<le> b ! r" by (intro sorted_nth_mono) simp_all
    with assms(4,7) show False by simp
  next
    case 2
    with assms(1,3) have "b ! Suc r \<le> b ! r'" by (intro sorted_nth_mono) simp_all
    with assms(5,6) show False by simp
  qed
qed

lemma locate_Inr_sorted:
  assumes "locate ds i = Inr (r, j)" "group_boundaries ds \<noteq> []"
    and "hd (group_boundaries ds) \<le> i" "i < last (group_boundaries ds)"
  shows "sorted (group_boundaries ds)"
proof -
  from assms(1) obtain d where d: "digitize i (group_boundaries ds) = Inr d"
    by (cases "digitize i (group_boundaries ds)") (simp_all add: locate_def)
  from assms(3,4) have "hd (group_boundaries ds) < last (group_boundaries ds)"
    by simp
  with d assms(2) show ?thesis by (rule digitize_Inr_sorted)
qed

section \<open>Facts about the example stores\<close>

lemma example_world_file:
  "files (example_world lens) (data_file ''data'' ''train'') = Some (example_file lens)"
  by (simp add: example_world_def data_file_def)

lemma example_well_formed_2: "well_formed (example_file [a, b])"
  by (simp add: well_formed_def keys_def example_file_def well_formed_group_def example_group_def)

lemma example_run_lengths_2: "run_lengths (example_file [a, b]) = [int a, int b]"
  by (simp add: run_lengths_def example_file_def num_steps_def example_group_def)

lemma example_well_formed_1: "well_formed (example_file [a])"
  by (simp add: well_formed_def keys_def example_file_def well_formed_group_def example_group_def)

lemma example_run_lengths_1: "run_lengths (example_file [a]) = [int a]"
  by (simp add: run_lengths_def example_file_def num_steps_def example_group_def)

lemma example_well_formed_3: "well_formed (example_file [a, b, c])"
  by (simp add: well_formed_def keys_def example_file_def well_formed_group_def example_group_def)

lemma example_run_lengths_3: "run_lengths (example_file [a, b, c]) = [int a, int b, int c]"
  by (simp add: run_lengths_def example_file_def num_steps_def example_group_def)

lemma example_init:
  assumes "well_formed (example_file lens)"
    and "\<forall>L\<in>set (run_lengths (example_file lens)). L < 2 ^ 63"
    and "list_all in_int64 (map (\<lambda>L. L - sk) (run_lengths (example_file lens)))"
  shows "fst (H5Dataset_init (example_world lens) ''data'' ''train'' sk) =
     Inr \<lparr>path = ''data'', skip = sk, mode = ''train'', dtype = Float32,
          h5f = example_file lens, group_names = keys (example_file lens),
          group_boundaries = 0 # cumsum_from 0 (map (\<lambda>L. L - sk) (run_lengths (example_file lens))),
          n_groups = length (example_file lens)\<rparr>"
  using assms(2,3) by (simp add: init_wf [OF assms(1) example_world_file])

section \<open>The length of the dataset\<close>

text \<open>
  Claim C1, as far as the code keeps it. On a well-formed store with \<open>skip \<ge> 1\<close>, where
  every run has at least \<open>skip\<close> time steps and the runs hold fewer than \<open>2\<^sup>6\<^sup>3\<close> time
  steps in all (the boundaries are an \<open>int64\<close> array), construction succeeds and
  \<open>__len__\<close> returns the sum over the runs of \<open>max(0, L\<^sub>i - skip)\<close>.
\<close>

theorem len_is_sum_of_steps_minus_skip:
  assumes "well_formed f" and "files w (data_file p m) = Some f"
    and "m \<in> set [''train'', ''valid'', ''test'']"
    and "1 \<le> sk" and "\<forall>L\<in>set (run_lengths f). sk \<le> L"
    and "sum_list (run_lengths f) < 2 ^ 63"
  shows "\<exists>ds. fst (H5Dataset_init w p m sk) = Inr ds
           \<and> H5Dataset_len ds = Inr (\<Sum>L\<leftarrow>run_lengths f. max 0 (L - sk))"
proof -
  let ?ds = "\<lparr>path = p, skip = sk, mode = m, dtype = Float32, h5f = f, group_names = keys f,
       group_boundaries = running_sums (0 # map (\<lambda>L. L - sk) (run_lengths f)),
       n_groups = length f\<rparr>"
  from assms(4) have sk0: "0 \<le> sk" by simp
  have made: "fst (H5Dataset_init w p m sk) = Inr ?ds"
    by (simp add: init_well_formed [OF assms(1,2,3) sk0 assms(5,6)])
  have "H5Dataset_len ?ds = Inr (\<Sum>L\<leftarrow>run_lengths f. L - sk)"
    by (simp add: H5Dataset_len_def len_running_sums_zero)
  with assms(5) have "H5Dataset_len ?ds = Inr (\<Sum>L\<leftarrow>run_lengths f. max 0 (L - sk))"
    by (simp add: sum_list_clamped)
  with made show ?thesis by blast
qed

text \<open>The theorem at the runs of 10 and 20 time steps with \<open>skip = 1\<close>: the length is 28.\<close>

theorem len_is_sum_of_steps_minus_skip_witness:
  "well_formed (example_file [10, 20])
   \<and> files (example_world [10, 20]) (data_file ''data'' ''train'') = Some (example_file [10, 20])
   \<and> ''train'' \<in> set [''train'', ''valid'', ''test'']
   \<and> (1::int) \<le> 1
   \<and> run_lengths (example_file [10, 20]) = [10, 20]
   \<and> sum_list (run_lengths (example_file [10, 20])) < 2 ^ 63
   \<and> (\<exists>ds. fst (H5Dataset_init (example_world [10, 20]) ''data'' ''train'' 1) = Inr ds
          \<and> H5Dataset_len ds = Inr 28)"
proof -
  have wf: "well_formed (example_file [10, 20])" by (rule example_well_formed_2)
  have fl: "files (example_world [10, 20]) (data_file ''data'' ''train'') = Some (example_file [10, 20])"
    by (rule example_world_file)
  have md: "''train'' \<in> set [''train'', ''valid'', ''test'']" by simp
  have rl: "run_lengths (example_file [10, 20]) = [10, 20]" by (simp add: example_run_lengths_2)
  have ge: "\<forall>L\<in>set (run_lengths (example_file [10, 20])). 1 \<le> L" by (simp add: rl)
  have tot: "sum_list (run_lengths (example_file [10, 20])) < 2 ^ 63" by (simp add: rl)
  from len_is_sum_of_steps_minus_skip [OF wf fl md order_refl ge tot]
  have "\<exists>ds. fst (H5Dataset_init (example_world [10, 20]) ''data'' ''train'' 1) = Inr ds
          \<and> H5Dataset_len ds = Inr 28"
    by (simp add: rl)
  with wf fl md rl tot show ?thesis by simp
qed

text \<open>
  Claim C1 as stated fails on a run shorter than \<open>skip\<close>: with one run of a single time
  step and \<open>skip = 2\<close> the constructor accepts the store and \<open>__len__\<close> returns \<open>-1\<close>, where
  the sum of \<open>max(0, L\<^sub>i - skip)\<close> is \<open>0\<close>.
\<close>

theorem len_short_run_counterexample:
  "\<exists>ds. fst (H5Dataset_init (example_world [1]) ''data'' ''train'' 2) = Inr ds
       \<and> H5Dataset_len ds = Inr (- 1)
       \<and> H5Dataset_len ds \<noteq> Inr (\<Sum>L\<leftarrow>run_lengths (example_file [1]). max 0 (L - 2))"
proof -
  have "fst (H5Dataset_init (example_world [1]) ''data'' ''train'' 2) =
     Inr \<lparr>path = ''data'', skip = 2, mode = ''train'', dtype = Float32,
          h5f = example_file [1], group_names = keys (example_file [1]),
          group_boundaries = 0 # cumsum_from 0 (map (\<lambda>L. L - 2) (run_lengths (example_file [1]))),
          n_groups = length (example_file [1])\<rparr>"
    by (rule example_init)
      (simp_all add: example_well_formed_1 example_run_lengths_1 in_int64_def)
  moreover have "int64 (- 1) = - 1" by (simp add: int64_def)
  ultimately show ?thesis
    by (simp add: example_run_lengths_1 H5Dataset_len_def getitem_int_def)
qed

section \<open>More facts about indexing, the store and the examples\<close>

lemma getitem_int_last: "b \<noteq> [] \<Longrightarrow> getitem_int b (- 1) = Inr (last b)"
  by (cases b rule: rev_cases) (simp_all add: getitem_int_def nth_append)

lemma getitem_int_nat: "k < length xs \<Longrightarrow> getitem_int xs (int k) = Inr (xs ! k)"
  by (simp add: getitem_int_def)

lemma getitem_int_length: "getitem_int xs (int (length xs)) = Inl IndexError"
  by (simp add: getitem_int_def)

lemma h5_group_nth:
  assumes "distinct (keys f)" "k < length f"
  shows "h5_group f (keys f ! k) = Inr (snd (f ! k))"
proof -
  from assms(2) have "(fst (f ! k), snd (f ! k)) \<in> set f" by simp
  with assms(1) have "map_of f (fst (f ! k)) = Some (snd (f ! k))"
    by (simp add: keys_def)
  with assms(2) show ?thesis by (simp add: h5_group_def keys_def)
qed

lemma well_formed_nth:
  assumes "well_formed f" "k < length f"
  shows "\<exists>ts fv. time (snd (f ! k)) = Some ts \<and> field_values (snd (f ! k)) = Some fv
           \<and> length fv = length ts \<and> run_lengths f ! k = int (length ts)"
proof -
  from assms have "well_formed_group (snd (f ! k))"
    by (auto simp: well_formed_def list_all_length case_prod_unfold)
  then obtain ts fv where "time (snd (f ! k)) = Some ts" "field_values (snd (f ! k)) = Some fv"
    "length fv = length ts"
    by (auto simp: well_formed_group_def split: option.splits)
  moreover from this assms(2) have "run_lengths f ! k = int (length ts)"
    by (simp add: run_lengths_def num_steps_def case_prod_unfold)
  ultimately show ?thesis by blast
qed

lemma read_field_ok:
  assumes "well_formed f" "h5f ds = f" "group_names ds = keys f" "k < length f"
    and "field_values (snd (f ! k)) = Some fv" "0 \<le> j" "nat j < length fv"
  shows "read_field to ds (int k) j = Inr (to (dtype ds) (fv ! nat j))"
proof -
  from assms(1) have d: "distinct (keys f)" by (simp add: well_formed_def)
  from assms(4) have "getitem_int (keys f) (int k) = Inr (keys f ! k)"
    by (simp add: getitem_int_nat keys_def)
  moreover note h5_group_nth [OF d assms(4)]
  moreover from assms(5) have "h5_field_values (snd (f ! k)) = Inr fv"
    by (simp add: h5_field_values_def)
  moreover from assms(6,7) have "getitem_int fv j = Inr (fv ! nat j)"
    by (simp add: getitem_int_def)
  ultimately show ?thesis
    using assms(2,3) by (simp add: read_field_def)
qed

lemma last_running_sums_zero: "last (running_sums (0 # cs)) = sum_list cs"
  using len_running_sums_zero [of cs] getitem_int_last [of "running_sums (0 # cs)"]
  by (simp add: running_sums_zero_Cons)

lemma locate_running_sums:
  assumes b: "group_boundaries ds = running_sums (0 # cs)"
    and nonneg: "\<forall>c\<in>set cs. 0 \<le> c" and total: "sum_list cs \<le> 2 ^ 63"
    and lo: "0 \<le> i" and hi: "i < sum_list cs"
  shows "\<exists>r<length cs. locate ds i = Inr (int r, i - group_boundaries ds ! r)
           \<and> group_boundaries ds ! r \<le> i \<and> i < group_boundaries ds ! Suc r
           \<and> i - group_boundaries ds ! r < cs ! r"
proof -
  from nonneg have s: "sorted (group_boundaries ds)"
    by (simp add: b sorted_running_sums_iff)
  have ne: "group_boundaries ds \<noteq> []" by (simp add: b running_sums_zero_Cons)
  have h: "hd (group_boundaries ds) \<le> i" using lo by (simp add: b running_sums_zero_Cons)
  have l: "i < last (group_boundaries ds)" using hi by (simp add: b last_running_sums_zero)
  have h0: "0 \<le> hd (group_boundaries ds)" by (simp add: b running_sums_zero_Cons)
  have l63: "last (group_boundaries ds) \<le> 2 ^ 63"
    using total by (simp add: b last_running_sums_zero)
  from locate_in_range [OF s ne h l h0 l63] obtain r where r:
    "Suc r < length (group_boundaries ds)"
    "locate ds i = Inr (int r, i - group_boundaries ds ! r)"
    "group_boundaries ds ! r \<le> i" "i < group_boundaries ds ! Suc r"
    by blast
  from r(1) have rl: "r < length cs" by (simp add: b)
  from running_sums_step [OF rl] r(4) have "i - group_boundaries ds ! r < cs ! r"
    by (simp add: b)
  with rl r show ?thesis by blast
qed

lemma steps_per_group_error:
  "steps_per_group f sk gs = Inl e \<Longrightarrow> (\<exists>k. e = KeyError k) \<or> e = OverflowError"
proof (induction gs)
  case Nil
  then show ?case by simp
next
  case (Cons g gs)
  then show ?case
    by (auto simp: h5_group_def h5_time_def py_len_def and_then_def
        split: option.splits sum.splits if_splits)
qed

lemma init_Inr_D:
  assumes "fst (H5Dataset_init w p m sk) = Inr ds"
  shows "m \<in> set [''train'', ''valid'', ''test'']" and "files w (data_file p m) = Some (h5f ds)"
proof -
  from assms show m: "m \<in> set [''train'', ''valid'', ''test'']"
    by (auto simp: H5Dataset_init_def split: if_splits)
  from assms m show "files w (data_file p m) = Some (h5f ds)"
    by (auto simp: H5Dataset_init_def split: option.splits sum.splits)
qed

text \<open>
  What a dataset made from a well-formed store looks like: the boundaries are the
  wrapped running sums of counts that fit \<open>int64\<close>.
\<close>

lemma init_Inr_modelled:
  assumes "fst (H5Dataset_init w p m sk) = Inr ds" and "well_formed (h5f ds)"
  shows "ds = \<lparr>path = p, skip = sk, mode = m, dtype = Float32, h5f = h5f ds,
       group_names = keys (h5f ds),
       group_boundaries = 0 # cumsum_from 0 (map (\<lambda>L. L - sk) (run_lengths (h5f ds))),
       n_groups = length (h5f ds)\<rparr>"
    and "\<forall>L\<in>set (run_lengths (h5f ds)). L < 2 ^ 63"
    and "list_all in_int64 (map (\<lambda>L. L - sk) (run_lengths (h5f ds)))"
proof -
  note iw = init_wf [OF assms(2) init_Inr_D(2) [OF assms(1)] init_Inr_D(1) [OF assms(1)], of sk]
  show b: "\<forall>L\<in>set (run_lengths (h5f ds)). L < 2 ^ 63"
  proof (rule ccontr)
    assume "\<not> (\<forall>L\<in>set (run_lengths (h5f ds)). L < 2 ^ 63)"
    with iw assms(1) show False by (simp only: if_True fst_conv) simp
  qed
  show c: "list_all in_int64 (map (\<lambda>L. L - sk) (run_lengths (h5f ds)))"
  proof (rule ccontr)
    assume n: "\<not> list_all in_int64 (map (\<lambda>L. L - sk) (run_lengths (h5f ds)))"
    from b have t1: "(\<not> (\<forall>L\<in>set (run_lengths (h5f ds)). L < 2 ^ 63)) = False" by blast
    from n iw assms(1) show False by (simp only: t1 if_False if_True fst_conv) simp
  qed
  from b have t1: "(\<not> (\<forall>L\<in>set (run_lengths (h5f ds)). L < 2 ^ 63)) = False" by blast
  from c have t2: "(\<not> list_all in_int64 (map (\<lambda>L. L - sk) (run_lengths (h5f ds)))) = False"
    by blast
  from iw assms(1) show "ds = \<lparr>path = p, skip = sk, mode = m, dtype = Float32, h5f = h5f ds,
       group_names = keys (h5f ds),
       group_boundaries = 0 # cumsum_from 0 (map (\<lambda>L. L - sk) (run_lengths (h5f ds))),
       n_groups = length (h5f ds)\<rparr>"
    by (simp only: t1 t2 if_False fst_conv sum.inject)
qed

text \<open>
  Where the boundaries of such a dataset do not decrease, nothing wrapped around: every
  run has at least \<open>skip\<close> time steps and the boundaries are the running sums.
\<close>

lemma init_Inr_sorted:
  assumes "fst (H5Dataset_init w p m sk) = Inr ds" and "well_formed (h5f ds)"
    and "sorted (group_boundaries ds)"
  shows "group_boundaries ds = running_sums (0 # map (\<lambda>L. L - sk) (run_lengths (h5f ds)))"
    and "\<forall>c\<in>set (map (\<lambda>L. L - sk) (run_lengths (h5f ds))). 0 \<le> c"
    and "sum_list (map (\<lambda>L. L - sk) (run_lengths (h5f ds))) < 2 ^ 63"
proof -
  define cs where "cs = map (\<lambda>L. L - sk) (run_lengths (h5f ds))"
  note shape = init_Inr_modelled [OF assms(1,2), folded cs_def]
  have b: "group_boundaries ds = 0 # cumsum_from 0 cs" by (subst shape(1)) simp
  with assms(3) have "sorted (0 # cumsum_from 0 cs)" by simp
  from sorted_cumsum_from_D [OF this _ _ shape(3)]
  have nn: "\<forall>c\<in>set cs. 0 \<le> c" and tot: "sum_list cs < 2 ^ 63" by simp_all
  then have "cumsum_from 0 cs = running_sums_from 0 cs"
    by (intro cumsum_from_exact) simp_all
  with b show "group_boundaries ds = running_sums (0 # cs)"
    by (simp add: running_sums_def)
  show "\<forall>c\<in>set cs. 0 \<le> c" by (fact nn)
  show "sum_list cs < 2 ^ 63" by (fact tot)
qed

lemma example_boundaries_10_20:
  "fst (H5Dataset_init (example_world [10, 20]) ''data'' ''train'' 1) =
     Inr \<lparr>path = ''data'', skip = 1, mode = ''train'', dtype = Float32,
          h5f = example_file [10, 20], group_names = keys (example_file [10, 20]),
          group_boundaries = [0, 9, 28],
          n_groups = length (example_file [10, 20])\<rparr>"
proof -
  have wf: "well_formed (example_file [10, 20])" by (rule example_well_formed_2)
  have rl: "run_lengths (example_file [10, 20]) = [10, 20]" by (simp add: example_run_lengths_2)
  have "running_sums (0 # map (\<lambda>L. L - 1) (run_lengths (example_file [10, 20]))) = [0, 9, 28]"
    by (simp add: rl running_sums_def)
  with init_exact [OF wf example_world_file, where sk = 1] show ?thesis
    by (simp add: rl)
qed

lemma example_len_10_20:
  "fst (H5Dataset_init (example_world [10, 20]) ''data'' ''train'' 1) = Inr ds
     \<Longrightarrow> H5Dataset_len ds = Inr 28"
  by (auto simp: example_boundaries_10_20 H5Dataset_len_def getitem_int_def)

lemma int64_small: "int64 0 = 0" "int64 18 = 18" "int64 (- 10) = - 10" "int64 (- 9) = - 9"
  "int64 1 = 1" "int64 19 = 19"
  by (simp_all add: int64_def)

lemma int64_of_python_small:
  "int64_of_python 0 = Inr 0" "int64_of_python 1 = Inr 1" "int64_of_python 9 = Inr 9"
  "int64_of_python 27 = Inr 27" "int64_of_python (- 1) = Inr (- 1)"
  by (simp_all add: int64_of_python_def in_int64_def)

lemma locate_example_10_20: "\<exists>ds. fst (H5Dataset_init (example_world [10, 20]) ''data'' ''train'' 1) = Inr ds
               \<and> H5Dataset_len ds = Inr 28
               \<and> locate ds 0 = Inr (0, 0) \<and> locate ds 9 = Inr (1, 0)
               \<and> locate ds 27 = Inr (1, 18)"
    by (simp add: example_boundaries_10_20
        H5Dataset_len_def locate_def digitize_def monotonicity_def
        searchsorted_right_def getitem_int_def int64_small int64_of_python_small)

lemma example_fields:
  "h5_group (example_file [n]) ''run_0'' = Inr (example_group n)"
  "h5_field_values (example_group n) = Inr (map (\<lambda>k. [[int k]]) [0..<n])"
  "keys (example_file [n]) = [''run_0'']"
  by (simp_all add: example_file_def h5_group_def h5_field_values_def example_group_def keys_def)

lemma example_read_field:
  assumes "group_names ds = [''run_0'']" "h5f ds = example_file [n]" "dtype ds = Float32"
    and "- int n \<le> k" "k < 0"
  shows "read_field tag_dtype ds (- 1) k = Inr [[(Float32, int n + k)]]"
proof -
  have "getitem_int (group_names ds) (- 1) = Inr ''run_0''"
    by (simp add: assms(1) getitem_int_def)
  moreover from assms(4,5) have "nat (int n + k) < n" by linarith
  with assms(4,5)
  have "getitem_int (map (\<lambda>k. [[int k]]) [0..<n]) k = Inr [[int n + k]]"
    by (simp add: getitem_int_def)
  ultimately show ?thesis
    by (simp add: read_field_def assms(2,3) example_fields tag_dtype_def)
qed

lemma example_read_field_0:
  assumes "group_names ds = [''run_0'']" "h5f ds = example_file [n]" "dtype ds = Float32"
    and "0 \<le> k" "k < int n"
  shows "read_field tag_dtype ds 0 k = Inr [[(Float32, k)]]"
proof -
  have "getitem_int (group_names ds) 0 = Inr ''run_0''"
    by (simp add: assms(1) getitem_int_def)
  moreover from assms(4,5) have "nat k < n" by linarith
  with assms(4,5)
  have "getitem_int (map (\<lambda>k. [[int k]]) [0..<n]) k = Inr [[k]]"
    by (simp add: getitem_int_def)
  ultimately show ?thesis
    by (simp add: read_field_def assms(2,3) example_fields tag_dtype_def)
qed

lemma example_fields_2:
  "keys (example_file [a, b]) = [''run_0'', ''run_1'']"
  "snd (example_file [a, b] ! Suc 0) = example_group b"
  "field_values (example_group n) = Some (map (\<lambda>k. [[int k]]) [0..<n])"
  by (simp_all add: example_file_def example_group_def keys_def)

section \<open>The boundaries of the dataset\<close>

text \<open>
  Claim C2, as far as the code keeps it. On a well-formed store with \<open>skip \<ge> 1\<close>, where
  every run has at least \<open>skip\<close> time steps and the runs hold fewer than \<open>2\<^sup>6\<^sup>3\<close> time
  steps in all, construction succeeds; the boundaries start at \<open>0\<close> and number
  \<open>n_groups + 1\<close>; each step from one boundary to the next is that run's
  \<open>max(0, len(time) - skip)\<close>, which is not negative; and the boundaries never decrease.
\<close>

theorem boundaries_are_running_sums:
  assumes "well_formed f" and "files w (data_file p m) = Some f"
    and "m \<in> set [''train'', ''valid'', ''test'']"
    and "1 \<le> sk" and "\<forall>L\<in>set (run_lengths f). sk \<le> L"
    and "sum_list (run_lengths f) < 2 ^ 63"
  shows "\<exists>ds. fst (H5Dataset_init w p m sk) = Inr ds
           \<and> n_groups ds = length f
           \<and> length (group_boundaries ds) = n_groups ds + 1
           \<and> group_boundaries ds ! 0 = 0
           \<and> (\<forall>r<length f.
                 group_boundaries ds ! Suc r - group_boundaries ds ! r
                   = max 0 (run_lengths f ! r - sk)
                 \<and> 0 \<le> group_boundaries ds ! Suc r - group_boundaries ds ! r)
           \<and> sorted (group_boundaries ds)"
proof -
  let ?cs = "map (\<lambda>L. L - sk) (run_lengths f)"
  let ?ds = "\<lparr>path = p, skip = sk, mode = m, dtype = Float32, h5f = f, group_names = keys f,
       group_boundaries = running_sums (0 # ?cs), n_groups = length f\<rparr>"
  from assms(4) have sk0: "0 \<le> sk" by simp
  have made: "fst (H5Dataset_init w p m sk) = Inr ?ds"
    by (simp add: init_well_formed [OF assms(1,2,3) sk0 assms(5,6)])
  have n: "length (run_lengths f) = length f"
    by (simp add: run_lengths_def)
  have len: "length (group_boundaries ?ds) = n_groups ?ds + 1"
    by (simp add: n)
  have first: "group_boundaries ?ds ! 0 = 0"
    by (simp add: running_sums_zero_Cons)
  have steps: "\<forall>r<length f.
      group_boundaries ?ds ! Suc r - group_boundaries ?ds ! r = max 0 (run_lengths f ! r - sk)
      \<and> 0 \<le> group_boundaries ?ds ! Suc r - group_boundaries ?ds ! r"
  proof (intro allI impI)
    fix r assume r: "r < length f"
    with n have "r < length ?cs" by simp
    from running_sums_step [OF this] r n
    have step: "group_boundaries ?ds ! Suc r - group_boundaries ?ds ! r = run_lengths f ! r - sk"
      by simp
    from r n have "run_lengths f ! r \<in> set (run_lengths f)" by simp
    with assms(5) have "sk \<le> run_lengths f ! r" by blast
    with step
    show "group_boundaries ?ds ! Suc r - group_boundaries ?ds ! r = max 0 (run_lengths f ! r - sk)
      \<and> 0 \<le> group_boundaries ?ds ! Suc r - group_boundaries ?ds ! r"
      by (simp only: max_def) simp
  qed
  from assms(5) have mono: "sorted (group_boundaries ?ds)"
    by (simp add: sorted_running_sums_iff)
  from made len first steps mono show ?thesis
    by (intro exI [of _ ?ds] conjI) simp_all
qed

text \<open>
  The theorem at the runs of 10 and 20 time steps with \<open>skip = 1\<close>.
\<close>

theorem boundaries_are_running_sums_witness:
  "well_formed (example_file [10, 20])
   \<and> files (example_world [10, 20]) (data_file ''data'' ''train'') = Some (example_file [10, 20])
   \<and> ''train'' \<in> set [''train'', ''valid'', ''test'']
   \<and> (1::int) \<le> 1
   \<and> run_lengths (example_file [10, 20]) = [10, 20]
   \<and> sum_list (run_lengths (example_file [10, 20])) < 2 ^ 63
   \<and> (\<exists>ds. fst (H5Dataset_init (example_world [10, 20]) ''data'' ''train'' 1) = Inr ds
          \<and> n_groups ds = 2 \<and> length (group_boundaries ds) = 3
          \<and> group_boundaries ds ! 0 = 0
          \<and> group_boundaries ds ! 1 - group_boundaries ds ! 0 = 9
          \<and> group_boundaries ds ! 2 - group_boundaries ds ! 1 = 19
          \<and> sorted (group_boundaries ds))"
proof -
  have wf: "well_formed (example_file [10, 20])" by (rule example_well_formed_2)
  have fl: "files (example_world [10, 20]) (data_file ''data'' ''train'') = Some (example_file [10, 20])"
    by (rule example_world_file)
  have md: "''train'' \<in> set [''train'', ''valid'', ''test'']" by simp
  have rl: "run_lengths (example_file [10, 20]) = [10, 20]" by (simp add: example_run_lengths_2)
  have ge: "\<forall>L\<in>set (run_lengths (example_file [10, 20])). 1 \<le> L" by (simp add: rl)
  have tot: "sum_list (run_lengths (example_file [10, 20])) < 2 ^ 63" by (simp add: rl)
  have two: "length (example_file [10, 20]) = 2" by (simp add: example_file_def)
  from boundaries_are_running_sums [OF wf fl md order_refl ge tot]
  obtain ds where ds: "fst (H5Dataset_init (example_world [10, 20]) ''data'' ''train'' 1) = Inr ds"
    "n_groups ds = 2" "length (group_boundaries ds) = n_groups ds + 1"
    "group_boundaries ds ! 0 = 0"
    "\<forall>r<2. group_boundaries ds ! Suc r - group_boundaries ds ! r = max 0 ([10, 20] ! r - 1)
        \<and> 0 \<le> group_boundaries ds ! Suc r - group_boundaries ds ! r"
    "sorted (group_boundaries ds)"
    unfolding rl two by blast
  have "group_boundaries ds ! Suc 0 - group_boundaries ds ! 0 = 9"
    using ds(5) [rule_format, of 0] by simp
  moreover have "group_boundaries ds ! Suc (Suc 0) - group_boundaries ds ! Suc 0 = 19"
    using ds(5) [rule_format, of "Suc 0"] by simp
  ultimately have "\<exists>ds. fst (H5Dataset_init (example_world [10, 20]) ''data'' ''train'' 1) = Inr ds
          \<and> n_groups ds = 2 \<and> length (group_boundaries ds) = 3
          \<and> group_boundaries ds ! 0 = 0
          \<and> group_boundaries ds ! 1 - group_boundaries ds ! 0 = 9
          \<and> group_boundaries ds ! 2 - group_boundaries ds ! 1 = 19
          \<and> sorted (group_boundaries ds)"
    using ds(1,2,3,4,6) by (intro exI [of _ ds]) (simp add: numeral_2_eq_2)
  with wf fl md rl tot show ?thesis by simp
qed

text \<open>
  Claim C2 as stated fails: runs of 3, 1 and 5 time steps with \<open>skip = 2\<close> are accepted,
  neither rejected nor clamped; the second run counts \<open>-1\<close> samples, where
  \<open>max(0, 1 - 2)\<close> is \<open>0\<close>, and the boundaries \<open>[0, 1, 0, 3]\<close> decrease.
\<close>

theorem boundaries_short_run_counterexample:
  "\<exists>ds. fst (H5Dataset_init (example_world [3, 1, 5]) ''data'' ''train'' 2) = Inr ds
       \<and> group_boundaries ds = [0, 1, 0, 3]
       \<and> group_boundaries ds ! 2 - group_boundaries ds ! 1 = - 1
       \<and> group_boundaries ds ! 2 - group_boundaries ds ! 1
            \<noteq> max 0 (run_lengths (example_file [3, 1, 5]) ! 1 - 2)
       \<and> \<not> sorted (group_boundaries ds)"
proof -
  have "fst (H5Dataset_init (example_world [3, 1, 5]) ''data'' ''train'' 2) =
     Inr \<lparr>path = ''data'', skip = 2, mode = ''train'', dtype = Float32,
          h5f = example_file [3, 1, 5], group_names = keys (example_file [3, 1, 5]),
          group_boundaries =
            0 # cumsum_from 0 (map (\<lambda>L. L - 2) (run_lengths (example_file [3, 1, 5]))),
          n_groups = length (example_file [3, 1, 5])\<rparr>"
    by (rule example_init)
      (simp_all add: example_well_formed_3 example_run_lengths_3 in_int64_def)
  moreover have "int64 1 = 1" "int64 0 = 0" "int64 3 = 3" by (simp_all add: int64_def)
  ultimately show ?thesis
    by (simp add: example_run_lengths_3)
qed

section \<open>The mode check of the constructor\<close>

text \<open>
  Claim C8. A mode other than \<open>train\<close>, \<open>valid\<close> and \<open>test\<close> makes the constructor raise
  the \<open>ValueError\<close> of the mode check whatever the file system holds, and leaves the world
  as it was, no file opened; with one of the three modes the constructor never raises that
  error.
\<close>

theorem invalid_mode_rejected_first:
  "(m \<notin> set [''train'', ''valid'', ''test'']
      \<longrightarrow> H5Dataset_init w p m sk = (Inl mode_error, w))
   \<and> (m \<in> set [''train'', ''valid'', ''test'']
      \<longrightarrow> fst (H5Dataset_init w p m sk) \<noteq> Inl mode_error)"
proof (intro conjI impI)
  assume "m \<notin> set [''train'', ''valid'', ''test'']"
  then show "H5Dataset_init w p m sk = (Inl mode_error, w)"
    by (simp add: H5Dataset_init_def)
next
  assume ok: "m \<in> set [''train'', ''valid'', ''test'']"
  show "fst (H5Dataset_init w p m sk) \<noteq> Inl mode_error"
  proof (cases "files w (data_file p m)")
    case None
    with ok show ?thesis by (simp add: H5Dataset_init_def mode_error_def)
  next
    case (Some f)
    have "and_then (steps_per_group f sk (keys f)) (\<lambda>steps. cumsum (0 # steps))
        \<noteq> Inl mode_error"
    proof (cases "steps_per_group f sk (keys f)")
      case (Inl e)
      with steps_per_group_error have "(\<exists>k. e = KeyError k) \<or> e = OverflowError" by blast
      with Inl show ?thesis by (auto simp: mode_error_def)
    next
      case (Inr steps)
      then show ?thesis by (simp add: cumsum_def mode_error_def)
    qed
    with ok Some show ?thesis
      by (auto simp: H5Dataset_init_def split: sum.splits)
  qed
qed

text \<open>
  The theorem at the mode \<open>training\<close>, whose file does not exist (an open would have
  raised \<open>FileNotFoundError\<close> instead), and at the modes \<open>valid\<close> and \<open>train\<close>.
\<close>

theorem invalid_mode_rejected_first_witness:
  "''training'' \<notin> set [''train'', ''valid'', ''test'']
   \<and> H5Dataset_init (example_world [10, 20]) ''data'' ''training'' 1
       = (Inl mode_error, example_world [10, 20])
   \<and> files (example_world [10, 20]) (data_file ''data'' ''training'') = None
   \<and> ''valid'' \<in> set [''train'', ''valid'', ''test'']
   \<and> fst (H5Dataset_init (example_world [10, 20]) ''data'' ''valid'' 1) \<noteq> Inl mode_error
   \<and> ''train'' \<in> set [''train'', ''valid'', ''test'']
   \<and> fst (H5Dataset_init (example_world [10, 20]) ''data'' ''train'' 1) \<noteq> Inl mode_error"
  using invalid_mode_rejected_first [of "''training''" "example_world [10, 20]" "''data''" 1]
    invalid_mode_rejected_first [of "''valid''" "example_world [10, 20]" "''data''" 1]
    invalid_mode_rejected_first [of "''train''" "example_world [10, 20]" "''data''" 1]
  by (simp add: example_world_def data_file_def)

section \<open>Locating an index\<close>

text \<open>
  Claim C4, as the code has it. On a well-formed store whose runs all have at least
  \<open>skip\<close> time steps, with fewer than \<open>2\<^sup>6\<^sup>3\<close> time steps in a run and fewer than
  \<open>2\<^sup>6\<^sup>3\<close> samples in all (the boundaries are an \<open>int64\<close> array), every index \<open>i\<close> with
  \<open>0 \<le> i < len\<close> is located: the lookup finds a run \<open>r\<close> with
  \<open>boundaries[r] \<le> i < boundaries[r+1]\<close>, the only such run, and the offset
  \<open>j = i - boundaries[r]\<close> with \<open>0 \<le> j < L\<^sub>r - skip\<close>. For runs of 10 and 20 time steps
  and \<open>skip = 1\<close> the length is 28 and the indices 0, 9 and 27 are located at (run 0, 0),
  (run 1, 0) and (run 1, 18).
\<close>

theorem locate_resolves_unique_bucket:
  assumes "well_formed f" and "files w (data_file p m) = Some f"
    and "m \<in> set [''train'', ''valid'', ''test'']"
    and "\<forall>L\<in>set (run_lengths f). sk \<le> L"
    and "\<forall>L\<in>set (run_lengths f). L < 2 ^ 63"
    and "(\<Sum>L\<leftarrow>run_lengths f. L - sk) < 2 ^ 63"
  shows "(\<exists>ds n. fst (H5Dataset_init w p m sk) = Inr ds \<and> H5Dataset_len ds = Inr n
           \<and> (\<forall>i. 0 \<le> i \<and> i < n \<longrightarrow>
                (\<exists>r<n_groups ds.
                   locate ds i = Inr (int r, i - group_boundaries ds ! r)
                   \<and> group_boundaries ds ! r \<le> i \<and> i < group_boundaries ds ! Suc r
                   \<and> 0 \<le> i - group_boundaries ds ! r
                   \<and> i - group_boundaries ds ! r < run_lengths f ! r - sk
                   \<and> (\<forall>r'<n_groups ds.
                         group_boundaries ds ! r' \<le> i \<and> i < group_boundaries ds ! Suc r'
                         \<longrightarrow> r' = r))))
         \<and> (\<exists>ds. fst (H5Dataset_init (example_world [10, 20]) ''data'' ''train'' 1) = Inr ds
               \<and> H5Dataset_len ds = Inr 28
               \<and> locate ds 0 = Inr (0, 0) \<and> locate ds 9 = Inr (1, 0)
               \<and> locate ds 27 = Inr (1, 18))"
proof (rule conjI)
  let ?cs = "map (\<lambda>L. L - sk) (run_lengths f)"
  define ds where "ds = \<lparr>path = p, skip = sk, mode = m, dtype = Float32, h5f = f,
       group_names = keys f, group_boundaries = running_sums (0 # ?cs), n_groups = length f\<rparr>"
  have made: "fst (H5Dataset_init w p m sk) = Inr ds"
    by (simp add: init_exact [OF assms(1,2,3,5,4,6)] ds_def)
  from assms(6) have total: "sum_list ?cs \<le> 2 ^ 63" by simp
  have b: "group_boundaries ds = running_sums (0 # ?cs)" by (simp add: ds_def)
  have ng: "n_groups ds = length f" by (simp add: ds_def)
  have len: "H5Dataset_len ds = Inr (sum_list ?cs)"
    by (simp add: H5Dataset_len_def b len_running_sums_zero)
  have n: "length (run_lengths f) = length f" by (simp add: run_lengths_def)
  have lb: "length (group_boundaries ds) = Suc (length f)" by (simp add: b n)
  from assms(4) have nonneg: "\<forall>c\<in>set ?cs. 0 \<le> c" by simp
  then have s: "sorted (group_boundaries ds)" by (simp add: b sorted_running_sums_iff)
  have each: "\<forall>i. 0 \<le> i \<and> i < sum_list ?cs \<longrightarrow>
      (\<exists>r<n_groups ds.
         locate ds i = Inr (int r, i - group_boundaries ds ! r)
         \<and> group_boundaries ds ! r \<le> i \<and> i < group_boundaries ds ! Suc r
         \<and> 0 \<le> i - group_boundaries ds ! r
         \<and> i - group_boundaries ds ! r < run_lengths f ! r - sk
         \<and> (\<forall>r'<n_groups ds.
               group_boundaries ds ! r' \<le> i \<and> i < group_boundaries ds ! Suc r' \<longrightarrow> r' = r))"
  proof (intro allI impI)
    fix i assume "0 \<le> i \<and> i < sum_list ?cs"
    then have i: "0 \<le> i" "i < sum_list ?cs" by simp_all
    from locate_running_sums [OF b nonneg total i] obtain r where r: "r < length ?cs"
      "locate ds i = Inr (int r, i - group_boundaries ds ! r)"
      "group_boundaries ds ! r \<le> i" "i < group_boundaries ds ! Suc r"
      "i - group_boundaries ds ! r < ?cs ! r"
      by blast
    from r(1) n have rf: "r < length f" by simp
    have rl: "r < length (run_lengths f)" using r(1) by simp
    from r(5) have off: "i - group_boundaries ds ! r < run_lengths f ! r - sk"
      by (simp only: nth_map [OF rl])
    from r(3) have pos: "0 \<le> i - group_boundaries ds ! r" by simp
    have uniq: "\<forall>r'<n_groups ds.
        group_boundaries ds ! r' \<le> i \<and> i < group_boundaries ds ! Suc r' \<longrightarrow> r' = r"
    proof (intro allI impI)
      fix r' assume r': "r' < n_groups ds"
        and "group_boundaries ds ! r' \<le> i \<and> i < group_boundaries ds ! Suc r'"
      then have in': "group_boundaries ds ! r' \<le> i" "i < group_boundaries ds ! Suc r'"
        by simp_all
      have 1: "Suc r < length (group_boundaries ds)" using rf lb by simp
      have 2: "Suc r' < length (group_boundaries ds)" using r' ng lb by simp
      from s 1 2 r(3,4) in' show "r' = r" by (rule bucket_unique)
    qed
    show "\<exists>r<n_groups ds.
         locate ds i = Inr (int r, i - group_boundaries ds ! r)
         \<and> group_boundaries ds ! r \<le> i \<and> i < group_boundaries ds ! Suc r
         \<and> 0 \<le> i - group_boundaries ds ! r
         \<and> i - group_boundaries ds ! r < run_lengths f ! r - sk
         \<and> (\<forall>r'<n_groups ds.
               group_boundaries ds ! r' \<le> i \<and> i < group_boundaries ds ! Suc r' \<longrightarrow> r' = r)"
    proof (intro exI conjI)
      show "r < n_groups ds" using rf ng by simp
    qed (fact r(2) r(3) r(4) pos off uniq)+
  qed
  show "\<exists>ds n. fst (H5Dataset_init w p m sk) = Inr ds \<and> H5Dataset_len ds = Inr n
           \<and> (\<forall>i. 0 \<le> i \<and> i < n \<longrightarrow>
                (\<exists>r<n_groups ds.
                   locate ds i = Inr (int r, i - group_boundaries ds ! r)
                   \<and> group_boundaries ds ! r \<le> i \<and> i < group_boundaries ds ! Suc r
                   \<and> 0 \<le> i - group_boundaries ds ! r
                   \<and> i - group_boundaries ds ! r < run_lengths f ! r - sk
                   \<and> (\<forall>r'<n_groups ds.
                         group_boundaries ds ! r' \<le> i \<and> i < group_boundaries ds ! Suc r'
                         \<longrightarrow> r' = r)))"
  proof (intro exI conjI)
    show "fst (H5Dataset_init w p m sk) = Inr ds" by (fact made)
    show "H5Dataset_len ds = Inr (sum_list ?cs)" by (fact len)
  qed (fact each)
next
  show "\<exists>ds. fst (H5Dataset_init (example_world [10, 20]) ''data'' ''train'' 1) = Inr ds
               \<and> H5Dataset_len ds = Inr 28
               \<and> locate ds 0 = Inr (0, 0) \<and> locate ds 9 = Inr (1, 0)
               \<and> locate ds 27 = Inr (1, 18)"
    by (rule locate_example_10_20)
qed


text \<open>
  The theorem at the runs of 10 and 20 time steps, \<open>skip = 1\<close> and the index 15.
\<close>

theorem locate_resolves_unique_bucket_witness:
  "well_formed (example_file [10, 20])
   \<and> files (example_world [10, 20]) (data_file ''data'' ''train'') = Some (example_file [10, 20])
   \<and> ''train'' \<in> set [''train'', ''valid'', ''test'']
   \<and> run_lengths (example_file [10, 20]) = [10, 20]
   \<and> (\<Sum>L\<leftarrow>run_lengths (example_file [10, 20]). L - 1) < 2 ^ 63
   \<and> (\<exists>ds. fst (H5Dataset_init (example_world [10, 20]) ''data'' ''train'' 1) = Inr ds
          \<and> H5Dataset_len ds = Inr 28
          \<and> (\<exists>r<n_groups ds.
                locate ds 15 = Inr (int r, 15 - group_boundaries ds ! r)
                \<and> group_boundaries ds ! r \<le> 15 \<and> 15 < group_boundaries ds ! Suc r
                \<and> 15 - group_boundaries ds ! r < run_lengths (example_file [10, 20]) ! r - 1))"
proof -
  have wf: "well_formed (example_file [10, 20])" by (rule example_well_formed_2)
  have fl: "files (example_world [10, 20]) (data_file ''data'' ''train'') = Some (example_file [10, 20])"
    by (rule example_world_file)
  have md: "''train'' \<in> set [''train'', ''valid'', ''test'']" by simp
  have rl: "run_lengths (example_file [10, 20]) = [10, 20]" by (simp add: example_run_lengths_2)
  have ge: "\<forall>L\<in>set (run_lengths (example_file [10, 20])). 1 \<le> L" by (simp add: rl)
  have lt: "\<forall>L\<in>set (run_lengths (example_file [10, 20])). L < 2 ^ 63" by (simp add: rl)
  have tot: "(\<Sum>L\<leftarrow>run_lengths (example_file [10, 20]). L - 1) < 2 ^ 63" by (simp add: rl)
  from locate_resolves_unique_bucket [OF wf fl md ge lt tot]
  obtain ds n where ds: "fst (H5Dataset_init (example_world [10, 20]) ''data'' ''train'' 1) = Inr ds"
    "H5Dataset_len ds = Inr n"
    and all: "\<forall>i. 0 \<le> i \<and> i < n \<longrightarrow>
                (\<exists>r<n_groups ds.
                   locate ds i = Inr (int r, i - group_boundaries ds ! r)
                   \<and> group_boundaries ds ! r \<le> i \<and> i < group_boundaries ds ! Suc r
                   \<and> 0 \<le> i - group_boundaries ds ! r
                   \<and> i - group_boundaries ds ! r < run_lengths (example_file [10, 20]) ! r - 1
                   \<and> (\<forall>r'<n_groups ds.
                         group_boundaries ds ! r' \<le> i \<and> i < group_boundaries ds ! Suc r'
                         \<longrightarrow> r' = r))"
    by blast
  from example_len_10_20 [OF ds(1)] ds(2) have n: "n = 28" by simp
  from all [rule_format, of 15] n
  have "\<exists>r<n_groups ds.
       locate ds 15 = Inr (int r, 15 - group_boundaries ds ! r)
       \<and> group_boundaries ds ! r \<le> 15 \<and> 15 < group_boundaries ds ! Suc r
       \<and> 15 - group_boundaries ds ! r < run_lengths (example_file [10, 20]) ! r - 1"
    by auto
  with ds n have "\<exists>ds. fst (H5Dataset_init (example_world [10, 20]) ''data'' ''train'' 1) = Inr ds
          \<and> H5Dataset_len ds = Inr 28
          \<and> (\<exists>r<n_groups ds.
                locate ds 15 = Inr (int r, 15 - group_boundaries ds ! r)
                \<and> group_boundaries ds ! r \<le> 15 \<and> 15 < group_boundaries ds ! Suc r
                \<and> 15 - group_boundaries ds ! r < run_lengths (example_file [10, 20]) ! r - 1)"
    by blast
  with wf fl md rl tot show ?thesis by blast
qed


text \<open>
  Claim C4 as stated fails where a run is shorter than \<open>skip\<close>: for runs of 3, 1 and 5
  time steps and \<open>skip = 2\<close> the length is 3, and the valid index 1 is not located:
  \<open>numpy.digitize\<close> raises \<open>ValueError\<close> on the boundaries \<open>[0, 1, 0, 3]\<close>.
\<close>

theorem locate_short_run_counterexample:
  "\<exists>ds. fst (H5Dataset_init (example_world [3, 1, 5]) ''data'' ''train'' 2) = Inr ds
       \<and> H5Dataset_len ds = Inr 3
       \<and> locate ds 1 = Inl (ValueError ''bins must be monotonically increasing or decreasing'')"
proof -
  have "fst (H5Dataset_init (example_world [3, 1, 5]) ''data'' ''train'' 2) =
     Inr \<lparr>path = ''data'', skip = 2, mode = ''train'', dtype = Float32,
          h5f = example_file [3, 1, 5], group_names = keys (example_file [3, 1, 5]),
          group_boundaries =
            0 # cumsum_from 0 (map (\<lambda>L. L - 2) (run_lengths (example_file [3, 1, 5]))),
          n_groups = length (example_file [3, 1, 5])\<rparr>"
    by (rule example_init)
      (simp_all add: example_well_formed_3 example_run_lengths_3 in_int64_def)
  moreover have "int64 1 = 1" "int64 0 = 0" "int64 3 = 3" by (simp_all add: int64_def)
  ultimately show ?thesis
    by (simp add: example_run_lengths_3 H5Dataset_len_def locate_def digitize_def
        monotonicity_def exact_as_double_def getitem_int_def)
qed

section \<open>The sample of an index\<close>

text \<open>
  Claim C5. On a well-formed store with \<open>skip \<ge> 1\<close>, when a valid index \<open>i\<close> is located at
  run \<open>r\<close> and offset \<open>j\<close>, the lookup returns the snapshots of run \<open>r\<close> at the time steps
  \<open>j\<close> and \<open>j + skip\<close> (both exist), each converted to \<open>torch.float32\<close> and put under a
  channel axis of size one.
\<close>

theorem getitem_returns_snapshot_pair:
  assumes made: "fst (H5Dataset_init w p m sk) = Inr ds" and wf: "well_formed (h5f ds)"
    and sk: "1 \<le> sk"
    and len: "H5Dataset_len ds = Inr n" and lo: "0 \<le> i" and hi: "i < n"
    and loc: "locate ds i = Inr (r, j)"
  shows "\<exists>fv. 0 \<le> r \<and> nat r < n_groups ds
           \<and> field_values (snd (h5f ds ! nat r)) = Some fv
           \<and> 0 \<le> j \<and> nat (j + sk) < length fv
           \<and> fst (H5Dataset_getitem to ds i)
               = Inr ([to Float32 (fv ! nat j)], [to Float32 (fv ! nat (j + sk))])"
proof -
  define f where "f = h5f ds"
  define cs where "cs = map (\<lambda>L. L - sk) (run_lengths f)"
  note shape = init_Inr_modelled [OF made wf, folded f_def, folded cs_def]
  have b0: "group_boundaries ds = 0 # cumsum_from 0 cs" by (subst shape(1)) simp
  have names: "group_names ds = keys f" by (subst shape(1)) simp
  have dt: "dtype ds = Float32" by (subst shape(1)) simp
  have skp: "skip ds = sk" by (subst shape(1)) simp
  have ng: "n_groups ds = length f" by (subst shape(1)) simp
  have ne: "group_boundaries ds \<noteq> []" by (simp add: b0)
  from len have n: "n = last (group_boundaries ds)"
    by (simp add: H5Dataset_len_def getitem_int_last [OF ne])
  have h: "hd (group_boundaries ds) \<le> i" using lo by (simp add: b0)
  have l: "i < last (group_boundaries ds)" using hi n by simp
  from locate_Inr_sorted [OF loc ne h l] have s: "sorted (group_boundaries ds)" .
  note exact = init_Inr_sorted [OF made wf s, folded f_def, folded cs_def]
  note b = exact(1)
  note nonneg = exact(2)
  from exact(3) have total: "sum_list cs \<le> 2 ^ 63" by simp
  from l have hi': "i < sum_list cs" by (simp add: b last_running_sums_zero)
  from locate_running_sums [OF b nonneg total lo hi'] loc obtain k where k: "k < length cs"
    "r = int k" "j = i - group_boundaries ds ! k" "group_boundaries ds ! k \<le> i"
    "j < cs ! k"
    by auto
  from k(1) have kf: "k < length f" by (simp add: cs_def run_lengths_def)
  from k(1) have kl: "k < length (run_lengths f)" by (simp add: cs_def)
  from wf have wf': "well_formed f" by (simp add: f_def)
  from well_formed_nth [OF wf' kf] obtain ts fv where
    tm: "time (snd (f ! k)) = Some ts" and
    fv: "field_values (snd (f ! k)) = Some fv" "length fv = length ts"
    "run_lengths f ! k = int (length ts)"
    by blast
  from k(3,4) have j0: "0 \<le> j" by simp
  from k(5) kl fv(2,3) have jsk: "j + sk < int (length fv)"
    by (simp add: cs_def)
  with j0 sk have in1: "nat j < length fv" and in2: "nat (j + sk) < length fv"
    and j1: "0 \<le> j + sk"
    by linarith+
  from kl have "run_lengths f ! k \<in> set (run_lengths f)" by simp
  with shape(2) have "run_lengths f ! k < 2 ^ 63" by blast
  with fv(2,3) have small: "int (length fv) < 2 ^ 63" by simp
  from sk j0 jsk small have "in_int64 sk" by (intro in_int64_I) linarith+
  then have conv: "int64_of_python sk = Inr sk" by (rule int64_of_python_Inr)
  from j1 jsk small have "in_int64 (j + sk)" by (intro in_int64_I) linarith+
  then have sum: "int64 (j + sk) = j + sk" by (rule int64_id)
  have hf: "h5f ds = f" by (simp add: f_def)
  have r1: "read_field to ds (int k) j = Inr (to (dtype ds) (fv ! nat j))"
    using wf' hf names kf fv(1) j0 in1 by (rule read_field_ok)
  have r2: "read_field to ds (int k) (j + sk) = Inr (to (dtype ds) (fv ! nat (j + sk)))"
    using wf' hf names kf fv(1) j1 in2 by (rule read_field_ok)
  have "fst (H5Dataset_getitem to ds i)
      = Inr ([to Float32 (fv ! nat j)], [to Float32 (fv ! nat (j + sk))])"
    by (simp add: H5Dataset_getitem_def loc k(2) r1 conv sum r2 dt skp)
  with k(2) kf ng fv(1) j0 in2 show ?thesis
    by (intro exI [of _ fv]) (simp add: f_def)
qed

text \<open>
  The theorem at the runs of 10 and 20 time steps, \<open>skip = 1\<close> and the index 27: the
  snapshots of the second run at the time steps 18 and 19.
\<close>

theorem getitem_returns_snapshot_pair_witness:
  "\<exists>ds. fst (H5Dataset_init (example_world [10, 20]) ''data'' ''train'' 1) = Inr ds
       \<and> well_formed (h5f ds) \<and> (1::int) \<le> 1
       \<and> H5Dataset_len ds = Inr 28 \<and> (0::int) \<le> 27 \<and> (27::int) < 28
       \<and> locate ds 27 = Inr (1, 18)
       \<and> fst (H5Dataset_getitem tag_dtype ds 27)
           = Inr ([[[(Float32, 18)]]], [[[(Float32, 19)]]])"
proof -
  define ds :: "(nat, int) H5Dataset" where
    "ds = \<lparr>path = ''data'', skip = 1, mode = ''train'', dtype = Float32,
          h5f = example_file [10, 20], group_names = keys (example_file [10, 20]),
          group_boundaries = [0, 9, 28],
          n_groups = length (example_file [10, 20])\<rparr>"
  have made: "fst (H5Dataset_init (example_world [10, 20]) ''data'' ''train'' 1) = Inr ds"
    unfolding ds_def by (rule example_boundaries_10_20)
  have wf: "well_formed (h5f ds)" by (simp add: ds_def example_well_formed_2)
  have b: "group_boundaries ds = [0, 9, 28]"
    by (simp add: ds_def)
  have len: "H5Dataset_len ds = Inr 28" by (rule example_len_10_20 [OF made])
  have loc: "locate ds 27 = Inr (1, 18)"
    by (simp add: locate_def b digitize_def monotonicity_def searchsorted_right_def
        getitem_int_def int64_small int64_of_python_small)
  have hf: "h5f ds = example_file [10, 20]" by (simp add: ds_def)
  from getitem_returns_snapshot_pair [OF made wf _ len _ _ loc, of tag_dtype]
  obtain fv where fv: "field_values (snd (h5f ds ! nat 1)) = Some fv"
    "fst (H5Dataset_getitem tag_dtype ds 27)
       = Inr ([tag_dtype Float32 (fv ! nat 18)], [tag_dtype Float32 (fv ! nat (18 + 1))])"
    by auto
  from fv(1) have "fv = map (\<lambda>k. [[int k]]) [0..<20]"
    by (simp add: hf example_fields_2)
  with fv(2) have "fst (H5Dataset_getitem tag_dtype ds 27)
      = Inr ([[[(Float32, 18)]]], [[[(Float32, 19)]]])"
    by (simp add: tag_dtype_def)
  with made wf len loc show ?thesis
    by (intro exI [of _ ds]) simp
qed

section \<open>Indices out of range\<close>

text \<open>
  Claim C3 against the code: the docstring promises \<open>IndexError\<close> for an index out of
  range, but a negative index wraps around three times (in \<open>group_boundaries[group_id]\<close>,
  in \<open>group_names[group_id]\<close> and in the h5py dataset). With one run of 10 time steps and
  \<open>skip = 1\<close> the length is 9, and the index \<open>-1\<close> returns the snapshots of the time steps 0
  and 1, the sample of index 0.
\<close>

theorem getitem_negative_index_returns_data:
  "\<exists>ds. fst (H5Dataset_init (example_world [10]) ''data'' ''train'' 1) = Inr ds
       \<and> H5Dataset_len ds = Inr 9
       \<and> fst (H5Dataset_getitem tag_dtype ds (- 1))
           = Inr ([[[(Float32, 0)]]], [[[(Float32, 1)]]])
       \<and> fst (H5Dataset_getitem tag_dtype ds (- 1)) = fst (H5Dataset_getitem tag_dtype ds 0)"
proof -
  define ds :: "(nat, int) H5Dataset" where
    "ds = \<lparr>path = ''data'', skip = 1, mode = ''train'', dtype = Float32,
          h5f = example_file [10], group_names = keys (example_file [10]),
          group_boundaries = 0 # cumsum_from 0 (map (\<lambda>L. L - 1) (run_lengths (example_file [10]))),
          n_groups = length (example_file [10])\<rparr>"
  have made: "fst (H5Dataset_init (example_world [10]) ''data'' ''train'' 1) = Inr ds"
    unfolding ds_def
    by (rule example_init)
      (simp_all add: example_well_formed_1 example_run_lengths_1 in_int64_def)
  have "int64 9 = 9" by (simp add: int64_def)
  then have b: "group_boundaries ds = [0, 9]"
    by (simp add: ds_def example_run_lengths_1)
  have nm: "group_names ds = [''run_0'']" by (simp add: ds_def example_fields)
  have hf: "h5f ds = example_file [10]" by (simp add: ds_def)
  have dt: "dtype ds = Float32" by (simp add: ds_def)
  have skp: "skip ds = 1" by (simp add: ds_def)
  have len: "H5Dataset_len ds = Inr 9"
    by (simp add: H5Dataset_len_def b getitem_int_def)
  have loc: "locate ds (- 1) = Inr (- 1, - 10)"
    by (simp add: locate_def b digitize_def monotonicity_def searchsorted_right_def
        getitem_int_def int64_small int64_of_python_small)
  have loc0: "locate ds 0 = Inr (0, 0)"
    by (simp add: locate_def b digitize_def monotonicity_def searchsorted_right_def
        getitem_int_def int64_small int64_of_python_small)
  have r1: "read_field tag_dtype ds (- 1) (- 10) = Inr [[(Float32, 0)]]"
    using example_read_field [OF nm hf dt, of "- 10"] by simp
  have r2: "read_field tag_dtype ds (- 1) (- 9) = Inr [[(Float32, 1)]]"
    using example_read_field [OF nm hf dt, of "- 9"] by simp
  have r3: "read_field tag_dtype ds 0 0 = Inr [[(Float32, 0)]]"
    using example_read_field_0 [OF nm hf dt, of 0] by simp
  have r4: "read_field tag_dtype ds 0 1 = Inr [[(Float32, 1)]]"
    using example_read_field_0 [OF nm hf dt, of 1] by simp
  have neg: "fst (H5Dataset_getitem tag_dtype ds (- 1))
      = Inr ([[[(Float32, 0)]]], [[[(Float32, 1)]]])"
    by (simp add: H5Dataset_getitem_def loc skp r1 r2 int64_small int64_of_python_small)
  have zero: "fst (H5Dataset_getitem tag_dtype ds 0)
      = Inr ([[[(Float32, 0)]]], [[[(Float32, 1)]]])"
    by (simp add: H5Dataset_getitem_def loc0 skp r3 r4 int64_small int64_of_python_small)
  from made len neg zero show ?thesis
    by (intro exI [of _ ds]) simp
qed

section \<open>Indices beyond the end\<close>

lemma locate_beyond_end:
  assumes "sorted (group_boundaries ds)" "group_boundaries ds \<noteq> []"
    and "last (group_boundaries ds) \<le> i" and "in_int64 i"
  shows "locate ds i
    = Inr (int (length (group_boundaries ds)) - 1, int64 (i - last (group_boundaries ds)))"
proof -
  define b where "b = group_boundaries ds"
  from assms(1,2,3) have k: "searchsorted_right b i = length b"
    unfolding b_def by (intro searchsorted_right_all)
  from assms(1) have "digitize i b = Inr (int (length b))"
    by (simp add: digitize_sorted b_def k [unfolded b_def])
  moreover from assms(2) have "getitem_int b (int (length b) - 1) = Inr (last b)"
    unfolding b_def
    by (cases "group_boundaries ds" rule: rev_cases) (simp_all add: getitem_int_def nth_append)
  ultimately show ?thesis
    using assms(4) by (simp add: locate_def b_def [symmetric] int64_of_python_Inr)
qed

text \<open>
  The half of the out-of-range promise that the code keeps: on a well-formed store whose
  runs all have at least \<open>skip\<close> time steps, with fewer than \<open>2\<^sup>6\<^sup>3\<close> time steps in a
  run and fewer than \<open>2\<^sup>6\<^sup>3\<close> samples in all, every index \<open>i\<close> with
  \<open>len \<le> i < 2\<^sup>6\<^sup>3\<close> raises \<open>IndexError\<close> (from \<open>group_names[n_groups]\<close>).
\<close>

theorem getitem_beyond_end_raises:
  assumes "well_formed f" and "files w (data_file p m) = Some f"
    and "m \<in> set [''train'', ''valid'', ''test'']"
    and "\<forall>L\<in>set (run_lengths f). sk \<le> L"
    and "\<forall>L\<in>set (run_lengths f). L < 2 ^ 63"
    and "(\<Sum>L\<leftarrow>run_lengths f. L - sk) < 2 ^ 63"
  shows "\<exists>ds n. fst (H5Dataset_init w p m sk) = Inr ds \<and> H5Dataset_len ds = Inr n
           \<and> (\<forall>i. n \<le> i \<and> i < 2 ^ 63 \<longrightarrow> fst (H5Dataset_getitem to ds i) = Inl IndexError)"
proof -
  let ?cs = "map (\<lambda>L. L - sk) (run_lengths f)"
  define ds where "ds = \<lparr>path = p, skip = sk, mode = m, dtype = Float32, h5f = f,
       group_names = keys f, group_boundaries = running_sums (0 # ?cs), n_groups = length f\<rparr>"
  have made: "fst (H5Dataset_init w p m sk) = Inr ds"
    by (simp add: init_exact [OF assms(1,2,3,5,4,6)] ds_def)
  have b: "group_boundaries ds = running_sums (0 # ?cs)" by (simp add: ds_def)
  have nm: "group_names ds = keys f" by (simp add: ds_def)
  have len: "H5Dataset_len ds = Inr (sum_list ?cs)"
    by (simp add: H5Dataset_len_def b len_running_sums_zero)
  have lb: "int (length (group_boundaries ds)) - 1 = int (length (keys f))"
    by (simp add: b run_lengths_def keys_def)
  from assms(4) have nonneg: "\<forall>c\<in>set ?cs. 0 \<le> c" by simp
  then have s: "sorted (group_boundaries ds)"
    by (simp add: b sorted_running_sums_iff)
  from nonneg have n0: "0 \<le> sum_list ?cs" by (intro sum_list_nonneg) blast
  have ne: "group_boundaries ds \<noteq> []" by (simp add: b running_sums_zero_Cons)
  have "\<forall>i. sum_list ?cs \<le> i \<and> i < 2 ^ 63
      \<longrightarrow> fst (H5Dataset_getitem to ds i) = Inl IndexError"
  proof (intro allI impI)
    fix i assume "sum_list ?cs \<le> i \<and> i < 2 ^ 63"
    then have i: "sum_list ?cs \<le> i" "i < 2 ^ 63" by simp_all
    from i(1) have past: "last (group_boundaries ds) \<le> i"
      by (simp add: b last_running_sums_zero)
    from n0 i have "in_int64 i" by (intro in_int64_I) linarith+
    from locate_beyond_end [OF s ne past this]
    have "locate ds i
       = Inr (int (length (keys f)), int64 (i - last (group_boundaries ds)))"
      by (simp only: lb)
    then show "fst (H5Dataset_getitem to ds i) = Inl IndexError"
      by (simp add: H5Dataset_getitem_def read_field_def nm getitem_int_length)
  qed
  with made len show ?thesis by blast
qed

text \<open>
  The theorem at the runs of 10 and 20 time steps, \<open>skip = 1\<close> and the index 28.
\<close>

theorem getitem_beyond_end_raises_witness:
  "well_formed (example_file [10, 20])
   \<and> files (example_world [10, 20]) (data_file ''data'' ''train'') = Some (example_file [10, 20])
   \<and> ''train'' \<in> set [''train'', ''valid'', ''test'']
   \<and> run_lengths (example_file [10, 20]) = [10, 20]
   \<and> (\<Sum>L\<leftarrow>run_lengths (example_file [10, 20]). L - 1) < 2 ^ 63
   \<and> (\<exists>ds. fst (H5Dataset_init (example_world [10, 20]) ''data'' ''train'' 1) = Inr ds
          \<and> H5Dataset_len ds = Inr 28
          \<and> fst (H5Dataset_getitem tag_dtype ds 28) = Inl IndexError)"
proof -
  have wf: "well_formed (example_file [10, 20])" by (rule example_well_formed_2)
  have fl: "files (example_world [10, 20]) (data_file ''data'' ''train'') = Some (example_file [10, 20])"
    by (rule example_world_file)
  have md: "''train'' \<in> set [''train'', ''valid'', ''test'']" by simp
  have rl: "run_lengths (example_file [10, 20]) = [10, 20]" by (simp add: example_run_lengths_2)
  have ge: "\<forall>L\<in>set (run_lengths (example_file [10, 20])). 1 \<le> L" by (simp add: rl)
  have lt: "\<forall>L\<in>set (run_lengths (example_file [10, 20])). L < 2 ^ 63" by (simp add: rl)
  have tot: "(\<Sum>L\<leftarrow>run_lengths (example_file [10, 20]). L - 1) < 2 ^ 63" by (simp add: rl)
  from getitem_beyond_end_raises [OF wf fl md ge lt tot, of tag_dtype]
  obtain ds n where ds: "fst (H5Dataset_init (example_world [10, 20]) ''data'' ''train'' 1) = Inr ds"
    "H5Dataset_len ds = Inr n"
    "\<forall>i. n \<le> i \<and> i < 2 ^ 63 \<longrightarrow> fst (H5Dataset_getitem tag_dtype ds i) = Inl IndexError"
    by blast
  from example_len_10_20 [OF ds(1)] ds(2) have n: "n = 28" by simp
  with ds(3) [rule_format, of 28]
  have "fst (H5Dataset_getitem tag_dtype ds 28) = Inl IndexError" by simp
  with ds n
  have "\<exists>ds. fst (H5Dataset_init (example_world [10, 20]) ''data'' ''train'' 1) = Inr ds
          \<and> H5Dataset_len ds = Inr 28
          \<and> fst (H5Dataset_getitem tag_dtype ds 28) = Inl IndexError"
    by auto
  with wf fl md rl tot show ?thesis by blast
qed

section \<open>Running sums that leave 64 bits\<close>

text \<open>
  The boundaries are an \<open>int64\<close> array, and \<open>numpy.cumsum\<close> wraps around in silence. With
  three runs of 10 time steps and \<open>skip = 2\<^sup>6\<^sup>2\<close> every run counts \<open>10 - 2\<^sup>6\<^sup>2\<close> samples,
  the third running sum \<open>30 - 3 \<times> 2\<^sup>6\<^sup>2\<close> is below \<open>-2\<^sup>6\<^sup>3\<close>, and \<open>__len__\<close> returns
  \<open>2\<^sup>6\<^sup>2 + 30\<close>.
\<close>

theorem len_wraps_around_int64:
  "\<exists>ds. fst (H5Dataset_init (example_world [10, 10, 10]) ''data'' ''train'' (2 ^ 62)) = Inr ds
       \<and> group_boundaries ds = [0, 10 - 2 ^ 62, 20 - 2 ^ 63, 2 ^ 62 + 30]
       \<and> H5Dataset_len ds = Inr (2 ^ 62 + 30)"
proof -
  have "fst (H5Dataset_init (example_world [10, 10, 10]) ''data'' ''train'' (2 ^ 62)) =
     Inr \<lparr>path = ''data'', skip = 2 ^ 62, mode = ''train'', dtype = Float32,
          h5f = example_file [10, 10, 10], group_names = keys (example_file [10, 10, 10]),
          group_boundaries =
            0 # cumsum_from 0 (map (\<lambda>L. L - 2 ^ 62) (run_lengths (example_file [10, 10, 10]))),
          n_groups = length (example_file [10, 10, 10])\<rparr>"
    by (rule example_init)
      (simp_all add: example_well_formed_3 example_run_lengths_3 in_int64_def)
  moreover have "int64 (- 4611686018427387894) = - 4611686018427387894"
    "int64 (- 9223372036854775788) = - 9223372036854775788"
    "int64 (- 13835058055282163682) = 4611686018427387934"
    by (simp_all add: int64_def)
  ultimately show ?thesis
    by (simp add: example_run_lengths_3 H5Dataset_len_def getitem_int_def)
qed

section \<open>The epoch loop\<close>

lemma observe_append [simp]:
  "validation_epochs (xs @ ys) = validation_epochs xs @ validation_epochs ys"
  "checkpoint_epochs (xs @ ys) = checkpoint_epochs xs @ checkpoint_epochs ys"
  "checkpoint_paths (xs @ ys) = checkpoint_paths xs @ checkpoint_paths ys"
  "final_saves (xs @ ys) = final_saves xs @ final_saves ys"
  by (simp_all add: validation_epochs_def checkpoint_epochs_def checkpoint_paths_def
      final_saves_def)

lemma observe_Nil [simp]:
  "validation_epochs [] = []" "checkpoint_epochs [] = []"
  "checkpoint_paths [] = []" "final_saves [] = []"
  by (simp_all add: validation_epochs_def checkpoint_epochs_def checkpoint_paths_def
      final_saves_def)

lemma observe_Cons [simp]:
  "validation_epochs (Validation e l # evs) = e # validation_epochs evs"
  "validation_epochs (Checkpoint e p # evs) = validation_epochs evs"
  "validation_epochs (FinalSave p # evs) = validation_epochs evs"
  "checkpoint_epochs (Validation e l # evs) = checkpoint_epochs evs"
  "checkpoint_epochs (Checkpoint e p # evs) = e # checkpoint_epochs evs"
  "checkpoint_epochs (FinalSave p # evs) = checkpoint_epochs evs"
  "checkpoint_paths (Validation e l # evs) = checkpoint_paths evs"
  "checkpoint_paths (Checkpoint e p # evs) = p # checkpoint_paths evs"
  "checkpoint_paths (FinalSave p # evs) = checkpoint_paths evs"
  "final_saves (Validation e l # evs) = final_saves evs"
  "final_saves (Checkpoint e p # evs) = final_saves evs"
  "final_saves (FinalSave p # evs) = p # final_saves evs"
  by (simp_all add: validation_epochs_def checkpoint_epochs_def checkpoint_paths_def
      final_saves_def)

lemma float_lt_irrefl [simp]: "\<not> float_lt x x"
  by (cases x) simp_all

lemma train_phase_ok: "lf \<noteq> 0 \<Longrightarrow> train_phase lf steps = Inr ()"
  by (induction steps) (simp_all add: py_mod_def)

lemma epoch_loop_snoc:
  "epoch_loop a nb loss mp st (es @ [e]) =
     and_then (epoch_loop a nb loss mp st es) (\<lambda>s. epoch_body a nb loss mp s e)"
proof (induction es arbitrary: st)
  case Nil
  show ?case by (cases "epoch_body a nb loss mp st e") simp_all
next
  case (Cons x es)
  show ?case by (cases "epoch_body a nb loss mp st x") (simp_all add: Cons)
qed

text \<open>
  What one pass through the loop body does to the state, when it returns.
\<close>

lemma epoch_body_Inr:
  assumes "epoch_body a nb loss mp st e = Inr st'"
  shows "valid_freq a \<noteq> 0"
    and "int e mod valid_freq a \<noteq> 0 \<Longrightarrow> st' = st"
    and "int e mod valid_freq a = 0 \<Longrightarrow> \<not> float_lt (loss e) (min_val_loss st) \<Longrightarrow>
      st' = st\<lparr>events := events st @ [Validation e (loss e)]\<rparr>"
    and "int e mod valid_freq a = 0 \<Longrightarrow> float_lt (loss e) (min_val_loss st) \<Longrightarrow>
      st' = st\<lparr>min_val_loss := loss e,
               events := events st @ [Validation e (loss e), Checkpoint e (checkpoint_path mp a)]\<rparr>"
  using assms
  by (auto simp: epoch_body_def py_mod_def and_then_def Let_def split: sum.splits if_splits)

lemma epoch_body_ok:
  assumes "valid_freq a \<noteq> 0" "log_freq a \<noteq> 0 \<or> nb = 0"
  shows "\<exists>st'. epoch_body a nb loss mp st e = Inr st'"
proof -
  from assms(2) have "train_phase (log_freq a) [0..<nb] = Inr ()"
    by (auto simp: train_phase_ok)
  with assms(1) show ?thesis
    by (simp add: epoch_body_def py_mod_def Let_def)
qed

lemma epoch_loop_ok:
  assumes "valid_freq a \<noteq> 0" "log_freq a \<noteq> 0 \<or> nb = 0"
  shows "\<exists>st'. epoch_loop a nb loss mp st es = Inr st'"
proof (induction es arbitrary: st)
  case Nil
  show ?case by simp
next
  case (Cons e es)
  from epoch_body_ok [OF assms] obtain s where "epoch_body a nb loss mp st e = Inr s"
    by blast
  with Cons [of s] show ?case by simp
qed

text \<open>
  The invariant of the loop, after the epochs \<open>0 ..< n\<close>: the best loss is the
  specification's, the validations and checkpoints are those the specification names, every
  checkpoint went to the checkpoint path, and no final save has happened.
\<close>

lemma epoch_loop_invariant:
  assumes "epoch_loop a nb loss mp \<lparr>min_val_loss = PosInf, events = []\<rparr> [0..<n] = Inr st"
  shows "min_val_loss st = best_seen (valid_freq a) loss n
    \<and> validation_epochs (events st) = filter (\<lambda>e. int e mod valid_freq a = 0) [0..<n]
    \<and> checkpoint_epochs (events st) = filter (improves a loss) [0..<n]
    \<and> set (checkpoint_paths (events st)) \<subseteq> {checkpoint_path mp a}
    \<and> final_saves (events st) = []
    \<and> (\<forall>e l. Validation e l \<in> set (events st) \<longrightarrow> l = loss e)"
  using assms
proof (induction n arbitrary: st)
  case 0
  then show ?case by auto
next
  case (Suc n)
  from Suc.prems obtain s where
    s: "epoch_loop a nb loss mp \<lparr>min_val_loss = PosInf, events = []\<rparr> [0..<n] = Inr s"
    and body: "epoch_body a nb loss mp s n = Inr st"
    by (cases "epoch_loop a nb loss mp \<lparr>min_val_loss = PosInf, events = []\<rparr> [0..<n]")
      (simp_all add: epoch_loop_snoc)
  note ih = Suc.IH [OF s]
  show ?case
  proof (cases "int n mod valid_freq a = 0")
    case False
    with epoch_body_Inr(2) [OF body] have "st = s" by simp
    with ih False show ?thesis by (simp add: improves_def)
  next
    case True
    show ?thesis
    proof (cases "float_lt (loss n) (min_val_loss s)")
      case False
      with True epoch_body_Inr(3) [OF body]
      have "st = s\<lparr>events := events s @ [Validation n (loss n)]\<rparr>" by simp
      with ih True False show ?thesis by (auto simp: improves_def)
    next
      case better: True
      with True epoch_body_Inr(4) [OF body]
      have "st = s\<lparr>min_val_loss := loss n,
          events := events s @ [Validation n (loss n), Checkpoint n (checkpoint_path mp a)]\<rparr>"
        by simp
      with ih True better show ?thesis by (auto simp: improves_def)
    qed
  qed
qed

lemma main_Inr_D:
  assumes "main a ts nb loss = Inr st"
  obtains s where
    "epoch_loop a nb loss (fst (snd (setup_directories ts a)))
       \<lparr>min_val_loss = PosInf, events = []\<rparr> [0..<nat (n_epochs a)] = Inr s"
    "st = s\<lparr>events := events s @ [FinalSave (fst (setup_directories ts a))]\<rparr>"
  using assms
  by (cases "epoch_loop a nb loss (fst (snd (setup_directories ts a)))
       \<lparr>min_val_loss = PosInf, events = []\<rparr> [0..<nat (n_epochs a)]")
    (auto simp: main_def setup_directories_def Let_def)

lemma main_ok:
  assumes "valid_freq a \<noteq> 0" "log_freq a \<noteq> 0 \<or> nb = 0"
  shows "\<exists>st. main a ts nb loss = Inr st"
proof -
  from epoch_loop_ok [OF assms] obtain s where
    "epoch_loop a nb loss (fst (snd (setup_directories ts a)))
       \<lparr>min_val_loss = PosInf, events = []\<rparr> [0..<nat (n_epochs a)] = Inr s"
    by blast
  then show ?thesis
    by (simp add: main_def setup_directories_def Let_def)
qed

lemma save_path_not_checkpoint_path:
  "fst (setup_directories ts a) \<noteq> checkpoint_path (fst (snd (setup_directories ts a))) a"
  by (simp add: setup_directories_def checkpoint_path_def Let_def)

lemma example_best_seen:
  "best_seen 1 example_losses 0 = PosInf"
  "best_seen 1 example_losses (Suc 0) = Finite 0.5"
  "best_seen 1 example_losses (Suc (Suc 0)) = Finite 0.3"
  "best_seen 1 example_losses (Suc (Suc (Suc 0))) = Finite 0.3"
  "best_seen 1 example_losses (Suc (Suc (Suc (Suc 0)))) = Finite 0.2"
  by (simp_all add: example_losses_def)

lemma example_best_seen_2:
  "best_seen 2 example_losses 0 = PosInf"
  "best_seen 2 example_losses (Suc 0) = Finite 0.5"
  "best_seen 2 example_losses (Suc (Suc 0)) = Finite 0.5"
  "best_seen 2 example_losses (Suc (Suc (Suc 0))) = Finite 0.4"
  "best_seen 2 example_losses (Suc (Suc (Suc (Suc 0)))) = Finite 0.4"
  by (simp_all add: example_losses_def)

lemma example_main_ok:
  "vf \<noteq> 0 \<Longrightarrow> \<exists>st. main (example_args n vf) ts nb loss = Inr st"
  by (rule main_ok) (simp_all add: example_args_def)

lemma example_save_path:
  "fst (setup_directories ''1141030'' (example_args n vf))
     = ''model_1141030/model_savetime_1141030_batchsize_64_timeskip_25.pt''"
  by (simp add: setup_directories_def example_args_def Let_def str_int_def)

section \<open>Best-model checkpoints\<close>

text \<open>
  Claim C6. In a run that completes, the epochs that wrote a checkpoint are exactly the
  epochs below \<open>n_epochs\<close> that validate with a mean loss strictly below the best seen
  before them, the best starting at \<open>+\<infinity>\<close>; the best loss at the end is the
  specification's, which only such an epoch changes; an epoch whose loss equals the best
  seen writes no checkpoint. With the validation losses 0.5, 0.3, 0.4, 0.2 and a
  validation in each of 4 epochs, checkpoints are written at the epochs 0, 1 and 3.
\<close>

theorem checkpoint_iff_strict_improvement:
  "(main a ts nb loss = Inr st \<longrightarrow>
      checkpoint_epochs (events st)
        = filter (\<lambda>e. int e mod valid_freq a = 0
                      \<and> float_lt (loss e) (best_seen (valid_freq a) loss e))
            [0..<nat (n_epochs a)]
      \<and> min_val_loss st = best_seen (valid_freq a) loss (nat (n_epochs a))
      \<and> (\<forall>e. loss e = best_seen (valid_freq a) loss e
            \<longrightarrow> e \<notin> set (checkpoint_epochs (events st))))
   \<and> (\<exists>st. main (example_args 4 1) ts nb example_losses = Inr st
          \<and> checkpoint_epochs (events st) = [0, 1, 3])"
proof (intro conjI impI)
  assume m: "main a ts nb loss = Inr st"
  from m obtain s where s:
    "epoch_loop a nb loss (fst (snd (setup_directories ts a)))
       \<lparr>min_val_loss = PosInf, events = []\<rparr> [0..<nat (n_epochs a)] = Inr s"
    "st = s\<lparr>events := events s @ [FinalSave (fst (setup_directories ts a))]\<rparr>"
    by (rule main_Inr_D)
  note inv = epoch_loop_invariant [OF s(1)]
  from inv s(2) show cp: "checkpoint_epochs (events st)
        = filter (\<lambda>e. int e mod valid_freq a = 0
                      \<and> float_lt (loss e) (best_seen (valid_freq a) loss e))
            [0..<nat (n_epochs a)]"
    by (simp add: improves_def [abs_def])
  from inv s(2) show "min_val_loss st = best_seen (valid_freq a) loss (nat (n_epochs a))"
    by simp
  show "\<forall>e. loss e = best_seen (valid_freq a) loss e
            \<longrightarrow> e \<notin> set (checkpoint_epochs (events st))"
    by (simp add: cp)
next
  have vf: "valid_freq (example_args 4 1) \<noteq> 0"
    and lf: "log_freq (example_args 4 1) \<noteq> 0 \<or> nb = 0"
    by (simp_all add: example_args_def)
  from main_ok [OF vf lf] obtain st where
    m: "main (example_args 4 1) ts nb example_losses = Inr st"
    by blast
  from m obtain s where s:
    "epoch_loop (example_args 4 1) nb example_losses
       (fst (snd (setup_directories ts (example_args 4 1))))
       \<lparr>min_val_loss = PosInf, events = []\<rparr> [0..<nat (n_epochs (example_args 4 1))] = Inr s"
    "st = s\<lparr>events := events s
        @ [FinalSave (fst (setup_directories ts (example_args 4 1)))]\<rparr>"
    by (rule main_Inr_D)
  have four: "[0..<nat (n_epochs (example_args 4 1))] = [0, Suc 0, Suc (Suc 0), Suc (Suc (Suc 0))]"
    by (simp add: example_args_def upt_rec eval_nat_numeral)
  from epoch_loop_invariant [OF s(1)]
  have "checkpoint_epochs (events s)
      = filter (improves (example_args 4 1) example_losses)
          [0, Suc 0, Suc (Suc 0), Suc (Suc (Suc 0))]"
    by (simp only: four)
  also have "\<dots> = [0, 1, 3]"
    by (simp add: improves_def example_best_seen example_args_def example_losses_def
        eval_nat_numeral)
  finally have "checkpoint_epochs (events st) = [0, 1, 3]"
    by (simp add: s(2))
  with m show "\<exists>st. main (example_args 4 1) ts nb example_losses = Inr st
          \<and> checkpoint_epochs (events st) = [0, 1, 3]"
    by blast
qed

text \<open>
  The theorem at the same losses with a validation every second epoch: checkpoints at the
  epochs 0 and 2, and the best loss 0.4 at the end.
\<close>

theorem checkpoint_iff_strict_improvement_witness:
  "\<exists>st. main (example_args 4 2) ''1141030'' 3 example_losses = Inr st
       \<and> checkpoint_epochs (events st) = [0, 2]
       \<and> min_val_loss st = Finite 0.4"
proof -
  from example_main_ok [of 2 4 "''1141030''" 3 example_losses] obtain st where
    m: "main (example_args 4 2) ''1141030'' 3 example_losses = Inr st"
    by auto
  have four: "[0..<nat (n_epochs (example_args 4 2))] = [0, Suc 0, Suc (Suc 0), Suc (Suc (Suc 0))]"
    and n4: "nat (n_epochs (example_args 4 2)) = Suc (Suc (Suc (Suc 0)))"
    and vf: "valid_freq (example_args 4 2) = 2"
    by (simp_all add: example_args_def upt_rec eval_nat_numeral)
  from checkpoint_iff_strict_improvement
    [of "example_args 4 2" "''1141030''" 3 example_losses st] m
  have "checkpoint_epochs (events st)
        = filter (\<lambda>e. int e mod valid_freq (example_args 4 2) = 0
                      \<and> float_lt (example_losses e)
                          (best_seen (valid_freq (example_args 4 2)) example_losses e))
            [0..<nat (n_epochs (example_args 4 2))]"
    and "min_val_loss st
        = best_seen (valid_freq (example_args 4 2)) example_losses
            (nat (n_epochs (example_args 4 2)))"
    by blast+
  then have "checkpoint_epochs (events st) = [0, 2]" "min_val_loss st = Finite 0.4"
    unfolding four n4 vf
    by (simp_all add: example_best_seen_2 example_losses_def eval_nat_numeral)
  with m show ?thesis by blast
qed

section \<open>The final save\<close>

text \<open>
  Claim C7. A run that completes has written the final model exactly once, as its last
  event, to \<open>save_path\<close>, a path no checkpoint was written to. Runs complete whenever
  \<open>valid_freq\<close> is not zero and either \<open>log_freq\<close> is not zero or there is no training batch;
  and a run of no epochs, in which no checkpoint can be written, consists of the final
  save alone.
\<close>

theorem final_save_exactly_once:
  "(main a ts nb loss = Inr st \<longrightarrow>
      final_saves (events st) = [fst (setup_directories ts a)]
      \<and> last (events st) = FinalSave (fst (setup_directories ts a))
      \<and> fst (setup_directories ts a) \<notin> set (checkpoint_paths (events st)))
   \<and> (valid_freq a \<noteq> 0 \<and> (log_freq a \<noteq> 0 \<or> nb = 0) \<longrightarrow> (\<exists>st. main a ts nb loss = Inr st))
   \<and> (n_epochs a \<le> 0 \<longrightarrow>
        main a ts nb loss
          = Inr \<lparr>min_val_loss = PosInf, events = [FinalSave (fst (setup_directories ts a))]\<rparr>)"
proof (intro conjI impI)
  assume m: "main a ts nb loss = Inr st"
  from m obtain s where s:
    "epoch_loop a nb loss (fst (snd (setup_directories ts a)))
       \<lparr>min_val_loss = PosInf, events = []\<rparr> [0..<nat (n_epochs a)] = Inr s"
    "st = s\<lparr>events := events s @ [FinalSave (fst (setup_directories ts a))]\<rparr>"
    by (rule main_Inr_D)
  note inv = epoch_loop_invariant [OF s(1)]
  from inv s(2) show "final_saves (events st) = [fst (setup_directories ts a)]"
    by simp
  from s(2) show "last (events st) = FinalSave (fst (setup_directories ts a))"
    by simp
  from inv have "set (checkpoint_paths (events s))
      \<subseteq> {checkpoint_path (fst (snd (setup_directories ts a))) a}"
    by simp
  with save_path_not_checkpoint_path [of ts a] s(2)
  show "fst (setup_directories ts a) \<notin> set (checkpoint_paths (events st))"
    by auto
next
  assume "valid_freq a \<noteq> 0 \<and> (log_freq a \<noteq> 0 \<or> nb = 0)"
  then show "\<exists>st. main a ts nb loss = Inr st"
    by (intro main_ok) simp_all
next
  assume "n_epochs a \<le> 0"
  then show "main a ts nb loss
      = Inr \<lparr>min_val_loss = PosInf, events = [FinalSave (fst (setup_directories ts a))]\<rparr>"
    by (simp add: main_def setup_directories_def Let_def)
qed

text \<open>
  The theorem at the example run of 4 epochs and at a run of no epochs with
  \<open>valid_freq = 0\<close>.
\<close>

theorem final_save_exactly_once_witness:
  "valid_freq (example_args 4 1) = 1 \<and> log_freq (example_args 4 1) = 1
   \<and> (\<exists>st. main (example_args 4 1) ''1141030'' 3 example_losses = Inr st
          \<and> final_saves (events st)
              = [''model_1141030/model_savetime_1141030_batchsize_64_timeskip_25.pt'']
          \<and> last (events st)
              = FinalSave ''model_1141030/model_savetime_1141030_batchsize_64_timeskip_25.pt'')
   \<and> n_epochs (example_args 0 0) \<le> 0
   \<and> main (example_args 0 0) ''1141030'' 3 example_losses
       = Inr \<lparr>min_val_loss = PosInf,
              events = [FinalSave ''model_1141030/model_savetime_1141030_batchsize_64_timeskip_25.pt'']\<rparr>"
proof -
  note fs = final_save_exactly_once [of "example_args 4 1" "''1141030''" 3 example_losses]
  have a: "valid_freq (example_args 4 1) = 1" "log_freq (example_args 4 1) = 1"
    by (simp_all add: example_args_def)
  with fs obtain st where m: "main (example_args 4 1) ''1141030'' 3 example_losses = Inr st"
    by auto
  from fs [of st] m have "final_saves (events st)
        = [''model_1141030/model_savetime_1141030_batchsize_64_timeskip_25.pt'']"
    and "last (events st)
        = FinalSave ''model_1141030/model_savetime_1141030_batchsize_64_timeskip_25.pt''"
    by (simp_all only: example_save_path simp_thms)
  moreover have z: "n_epochs (example_args 0 0) \<le> 0" by (simp add: example_args_def)
  moreover from final_save_exactly_once [of "example_args 0 0" "''1141030''" 3 example_losses] z
  have "main (example_args 0 0) ''1141030'' 3 example_losses
       = Inr \<lparr>min_val_loss = PosInf,
              events = [FinalSave ''model_1141030/model_savetime_1141030_batchsize_64_timeskip_25.pt'']\<rparr>"
    by (simp only: example_save_path simp_thms)
  ultimately show ?thesis using a m by blast
qed

section \<open>The first validation\<close>

text \<open>
  Claim C10. With \<open>valid_freq \<ge> 1\<close> and \<open>n_epochs \<ge> 1\<close>, a run that completes has validated
  in epoch 0, with that epoch's loss, and has written a checkpoint in epoch 0 exactly when
  that loss is below \<open>+\<infinity>\<close>; and the run completes when \<open>log_freq\<close> is not zero or there
  is no training batch.
\<close>

theorem validation_runs_at_first_epoch:
  assumes "1 \<le> valid_freq a" and "1 \<le> n_epochs a"
  shows "(main a ts nb loss = Inr st \<longrightarrow>
            0 \<in> set (validation_epochs (events st))
            \<and> Validation 0 (loss 0) \<in> set (events st)
            \<and> (0 \<in> set (checkpoint_epochs (events st)) \<longleftrightarrow> float_lt (loss 0) PosInf))
         \<and> ((log_freq a \<noteq> 0 \<or> nb = 0) \<longrightarrow> (\<exists>st. main a ts nb loss = Inr st))"
proof (intro conjI impI)
  assume m: "main a ts nb loss = Inr st"
  from m obtain s where s:
    "epoch_loop a nb loss (fst (snd (setup_directories ts a)))
       \<lparr>min_val_loss = PosInf, events = []\<rparr> [0..<nat (n_epochs a)] = Inr s"
    "st = s\<lparr>events := events s @ [FinalSave (fst (setup_directories ts a))]\<rparr>"
    by (rule main_Inr_D)
  note inv = epoch_loop_invariant [OF s(1)]
  from assms(2) have pos: "0 < nat (n_epochs a)" by simp
  from inv s(2) pos show v: "0 \<in> set (validation_epochs (events st))"
    by simp
  from v obtain l where "Validation 0 l \<in> set (events st)"
    by (auto simp: validation_epochs_def split: event.splits)
  with s(2) have in_s: "Validation 0 l \<in> set (events s)" by simp
  with inv have "l = loss 0" by blast
  with in_s s(2) show "Validation 0 (loss 0) \<in> set (events st)" by simp
  from inv s(2) pos
  show "0 \<in> set (checkpoint_epochs (events st)) \<longleftrightarrow> float_lt (loss 0) PosInf"
    by (simp add: improves_def)
next
  assume "log_freq a \<noteq> 0 \<or> nb = 0"
  with assms(1) show "\<exists>st. main a ts nb loss = Inr st"
    by (intro main_ok) simp_all
qed

text \<open>
  The theorem at the example run with a validation every second epoch.
\<close>

theorem validation_runs_at_first_epoch_witness:
  "1 \<le> valid_freq (example_args 4 2) \<and> 1 \<le> n_epochs (example_args 4 2)
   \<and> log_freq (example_args 4 2) = 1
   \<and> (\<exists>st. main (example_args 4 2) ''1141030'' 3 example_losses = Inr st
          \<and> 0 \<in> set (validation_epochs (events st))
          \<and> Validation 0 (Finite 0.5) \<in> set (events st)
          \<and> 0 \<in> set (checkpoint_epochs (events st)))"
proof -
  have a: "1 \<le> valid_freq (example_args 4 2)" "1 \<le> n_epochs (example_args 4 2)"
    "log_freq (example_args 4 2) = 1"
    by (simp_all add: example_args_def)
  note v = validation_runs_at_first_epoch [OF a(1,2), of "''1141030''" 3 example_losses]
  from v a(3) obtain st where m: "main (example_args 4 2) ''1141030'' 3 example_losses = Inr st"
    by auto
  from v [of st] m have "0 \<in> set (validation_epochs (events st))"
    "Validation 0 (Finite 0.5) \<in> set (events st)" "0 \<in> set (checkpoint_epochs (events st))"
    by (simp_all add: example_losses_def)
  with a m show ?thesis by blast
qed

end
